theory Spec2Isabelle
  imports Complex_Main
begin

section \<open>The host: strings and the JavaScript Date\<close>

text \<open>
  The application (\<^verbatim>\<open>src/app/page.tsx\<close>) keeps dates and times of day as strings
  (\<^verbatim>\<open>YYYY-MM-DD\<close> and \<^verbatim>\<open>HH:MM\<close>, as HTML date and time inputs deliver them) and turns
  them into instants with the host's \<^verbatim>\<open>Date\<close>. The host is not part of the repository;
  it is modelled here after ECMA-262 (section "Date Objects"), with one parameter:
  \<open>tz\<close>, the offset of the host's local time from UTC in minutes (540 for Asia/Tokyo,
  0 for UTC, -300 for New York in winter). The offset is taken as constant, so daylight
  saving transitions are outside the model.

  A Date holds a time value: an integral number of milliseconds since the epoch, or NaN.
\<close>

datatype jsdate = Invalid_Date | Date int

datatype js_error = RangeError

text \<open>JavaScript truthiness of an optional string: \<^verbatim>\<open>undefined\<close> and \<^verbatim>\<open>""\<close> are falsy.\<close>

fun truthy :: "string option \<Rightarrow> bool" where
  "truthy None = False"
| "truthy (Some s) = (s \<noteq> [])"

text \<open>\<^verbatim>\<open>a || b\<close> on optional strings.\<close>

definition or_else :: "string option \<Rightarrow> string option \<Rightarrow> string option" where
  "or_else a b = (if truthy a then a else b)"

text \<open>\<^verbatim>\<open>s || undefined\<close> on a form field, which is always a string.\<close>

definition or_undefined :: "string \<Rightarrow> string option" where
  "or_undefined s = (if s \<noteq> [] then Some s else None)"

subsection \<open>Decimal digits\<close>

definition digit_val :: "char \<Rightarrow> int option" where
  "digit_val = map_of (zip ''0123456789'' [0, 1, 2, 3, 4, 5, 6, 7, 8, 9])"

fun digits_val :: "int \<Rightarrow> string \<Rightarrow> int option" where
  "digits_val acc [] = Some acc"
| "digits_val acc (c # cs) =
    (case digit_val c of None \<Rightarrow> None | Some d \<Rightarrow> digits_val (10 * acc + d) cs)"

definition digit_char :: "int \<Rightarrow> char" where
  "digit_char n = ''0123456789'' ! nat (n mod 10)"

text \<open>The last \<open>w\<close> decimal digits of \<open>n \<ge> 0\<close>, zero padded.\<close>

fun dec :: "nat \<Rightarrow> int \<Rightarrow> string" where
  "dec 0 n = []"
| "dec (Suc w) n = dec w (n div 10) @ [digit_char n]"

subsection \<open>Day numbers and calendar fields (ECMA-262, "Day Number and Time within Day")\<close>

definition msPerDay :: int where "msPerDay = 86400000"
definition msPerMinute :: int where "msPerMinute = 60000"

definition Day :: "int \<Rightarrow> int" where
  "Day t = t div msPerDay"

definition TimeWithinDay :: "int \<Rightarrow> int" where
  "TimeWithinDay t = t mod msPerDay"

definition DayFromYear :: "int \<Rightarrow> int" where
  "DayFromYear y =
     365 * (y - 1970) + (y - 1969) div 4 - (y - 1901) div 100 + (y - 1601) div 400"

definition InLeapYear :: "int \<Rightarrow> bool" where
  "InLeapYear y = (y mod 4 = 0 \<and> (y mod 100 \<noteq> 0 \<or> y mod 400 = 0))"

text \<open>Days of the year before month \<open>m\<close> (0 = January).\<close>

definition month_start :: "bool \<Rightarrow> int \<Rightarrow> int" where
  "month_start leap m =
    (if m = 0 then 0 else if m = 1 then 31
     else (if leap then 1 else 0) +
       (if m = 2 then 59 else if m = 3 then 90 else if m = 4 then 120
        else if m = 5 then 151 else if m = 6 then 181 else if m = 7 then 212
        else if m = 8 then 243 else if m = 9 then 273 else if m = 10 then 304
        else 334))"

definition DaysInMonth :: "int \<Rightarrow> int \<Rightarrow> int" where
  "DaysInMonth y m =
    (if m = 1 then (if InLeapYear y then 29 else 28)
     else if m = 3 \<or> m = 5 \<or> m = 8 \<or> m = 10 then 30 else 31)"

text \<open>
  \<^verbatim>\<open>MakeDay(year, month, date)\<close>: the month (0-based) and the date may lie outside
  their ranges; the month carries into the year, the date counts on from day 1 of the
  month. This is the normalization \<^verbatim>\<open>setMonth\<close> and \<^verbatim>\<open>setDate\<close> rely on.
\<close>

definition MakeDay :: "int \<Rightarrow> int \<Rightarrow> int \<Rightarrow> int" where
  "MakeDay year month date =
    (let ym = year + month div 12; mn = month mod 12
     in DayFromYear ym + month_start (InLeapYear ym) mn + date - 1)"

definition MakeTime :: "int \<Rightarrow> int \<Rightarrow> int \<Rightarrow> int \<Rightarrow> int" where
  "MakeTime h m s ms = h * 3600000 + m * 60000 + s * 1000 + ms"

definition MakeDate :: "int \<Rightarrow> int \<Rightarrow> int" where
  "MakeDate day time = day * msPerDay + time"

definition TimeClip :: "int \<Rightarrow> jsdate" where
  "TimeClip t = (if \<bar>t\<bar> > 8640000000000000 then Invalid_Date else Date t)"

text \<open>
  Year, month (0-based) and day of the month of a day number. ECMA-262 defines
  \<^verbatim>\<open>YearFromTime\<close> as the largest year starting at or before the instant; the closed
  form below (the usual era / day-of-era computation of the proleptic Gregorian
  calendar) computes the same fields.
\<close>

definition civil_from_days :: "int \<Rightarrow> int \<times> int \<times> int" where
  "civil_from_days z =
    (let z1 = z + 719468;
         era = z1 div 146097;
         doe = z1 mod 146097;
         yoe = (doe - doe div 1460 + doe div 36524 - doe div 146096) div 365;
         doy = doe - (365 * yoe + yoe div 4 - yoe div 100);
         mp = (5 * doy + 2) div 153;
         d = doy - (153 * mp + 2) div 5 + 1;
         m = (if mp < 10 then mp + 3 else mp - 9);
         y = yoe + era * 400 + (if m \<le> 2 then 1 else 0)
     in (y, m - 1, d))"

definition LocalTime :: "int \<Rightarrow> int \<Rightarrow> int" where
  "LocalTime tz t = t + tz * msPerMinute"

definition UTC_of :: "int \<Rightarrow> int \<Rightarrow> int" where
  "UTC_of tz t = t - tz * msPerMinute"

subsection \<open>\<^verbatim>\<open>new Date(string)\<close>\<close>

text \<open>
  The application only ever builds strings of the shape date \<^verbatim>\<open>T\<close> time. ECMA-262
  reads a date-time form without an offset as local time, and gives NaN for a string
  that is not of the format or has an element out of range. The forms accepted here are
  \<^verbatim>\<open>YYYY-MM-DDTHH:mm\<close> and \<^verbatim>\<open>YYYY-MM-DDTHH:mm:ss\<close>.
\<close>

definition parse_date_part :: "string \<Rightarrow> (int \<times> int \<times> int) option" where
  "parse_date_part s =
    (case s of
       [y1, y2, y3, y4, a, m1, m2, b, d1, d2] \<Rightarrow>
         (case (digits_val 0 [y1, y2, y3, y4], digits_val 0 [m1, m2], digits_val 0 [d1, d2]) of
            (Some y, Some m, Some d) \<Rightarrow>
              if a = CHR ''-'' \<and> b = CHR ''-'' \<and> 1 \<le> m \<and> m \<le> 12 \<and> 1 \<le> d
                 \<and> d \<le> DaysInMonth y (m - 1)
              then Some (y, m - 1, d) else None
          | _ \<Rightarrow> None)
     | _ \<Rightarrow> None)"

definition parse_time_part :: "string \<Rightarrow> int option" where
  "parse_time_part s =
    (case s of
       [h1, h2, a, m1, m2] \<Rightarrow>
         (case (digits_val 0 [h1, h2], digits_val 0 [m1, m2]) of
            (Some h, Some m) \<Rightarrow>
              if a = CHR '':'' \<and> h \<le> 23 \<and> m \<le> 59 then Some (MakeTime h m 0 0) else None
          | _ \<Rightarrow> None)
     | [h1, h2, a, m1, m2, b, s1, s2] \<Rightarrow>
         (case (digits_val 0 [h1, h2], digits_val 0 [m1, m2], digits_val 0 [s1, s2]) of
            (Some h, Some m, Some sec) \<Rightarrow>
              if a = CHR '':'' \<and> b = CHR '':'' \<and> h \<le> 23 \<and> m \<le> 59 \<and> sec \<le> 59
              then Some (MakeTime h m sec 0) else None
          | _ \<Rightarrow> None)
     | _ \<Rightarrow> None)"

definition Date_parse :: "int \<Rightarrow> string \<Rightarrow> jsdate" where
  "Date_parse tz s =
    (if length s < 11 \<or> s ! 10 \<noteq> CHR ''T'' then Invalid_Date
     else case (parse_date_part (take 10 s), parse_time_part (drop 11 s)) of
            (Some (y, m, d), Some t) \<Rightarrow> TimeClip (UTC_of tz (MakeDate (MakeDay y m d) t))
          | _ \<Rightarrow> Invalid_Date)"

subsection \<open>Date methods\<close>

text \<open>\<^verbatim>\<open>getMonth\<close> and \<^verbatim>\<open>getDate\<close> read local fields; on an invalid Date they give NaN
  (\<open>None\<close>).\<close>

fun getMonth :: "int \<Rightarrow> jsdate \<Rightarrow> int option" where
  "getMonth tz Invalid_Date = None"
| "getMonth tz (Date t) = (case civil_from_days (Day (LocalTime tz t)) of (y, m, d) \<Rightarrow> Some m)"

fun getDate :: "int \<Rightarrow> jsdate \<Rightarrow> int option" where
  "getDate tz Invalid_Date = None"
| "getDate tz (Date t) = (case civil_from_days (Day (LocalTime tz t)) of (y, m, d) \<Rightarrow> Some d)"

text \<open>\<^verbatim>\<open>setMonth(m)\<close> and \<^verbatim>\<open>setDate(d)\<close> replace one local field and renormalize through
  \<^verbatim>\<open>MakeDay\<close>; a NaN argument or an invalid Date gives an invalid Date.\<close>

fun setMonth :: "int \<Rightarrow> jsdate \<Rightarrow> int option \<Rightarrow> jsdate" where
  "setMonth tz (Date t) (Some m) =
    (let lt = LocalTime tz t in
     case civil_from_days (Day lt) of
       (y, m0, d) \<Rightarrow> TimeClip (UTC_of tz (MakeDate (MakeDay y m d) (TimeWithinDay lt))))"
| "setMonth tz _ _ = Invalid_Date"

fun setDate :: "int \<Rightarrow> jsdate \<Rightarrow> int option \<Rightarrow> jsdate" where
  "setDate tz (Date t) (Some d) =
    (let lt = LocalTime tz t in
     case civil_from_days (Day lt) of
       (y, m, d0) \<Rightarrow> TimeClip (UTC_of tz (MakeDate (MakeDay y m d) (TimeWithinDay lt))))"
| "setDate tz _ _ = Invalid_Date"

text \<open>
  \<^verbatim>\<open>toISOString\<close> prints the UTC fields, whatever the local zone is:
  \<^verbatim>\<open>YYYY-MM-DDTHH:mm:ss.sssZ\<close>, with a sign and six digits for a year outside 0..9999.
  On an invalid Date it throws a RangeError.
\<close>

definition iso_string :: "int \<Rightarrow> string" where
  "iso_string t =
    (case civil_from_days (Day t) of
       (y, m, d) \<Rightarrow>
         (let w = TimeWithinDay t in
          (if 0 \<le> y \<and> y \<le> 9999 then dec 4 y
           else (if y < 0 then ''-'' else ''+'') @ dec 6 \<bar>y\<bar>)
          @ ''-'' @ dec 2 (m + 1) @ ''-'' @ dec 2 d
          @ ''T'' @ dec 2 (w div 3600000) @ '':'' @ dec 2 (w div 60000 mod 60)
          @ '':'' @ dec 2 (w div 1000 mod 60) @ ''.'' @ dec 3 (w mod 1000)
          @ ''Z''))"

fun toISOString :: "jsdate \<Rightarrow> js_error + string" where
  "toISOString Invalid_Date = Inl RangeError"
| "toISOString (Date t) = Inr (iso_string t)"

section \<open>Types and helpers of the application\<close>

datatype Recurrence = none | daily | weekly | monthly

text \<open>The field \<^verbatim>\<open>id\<close> of the source is \<open>tid\<close> here (\<open>id\<close> is the identity function of HOL).\<close>

record Task =
  tid :: string
  title :: string
  completed :: bool
  startDate :: "string option"
  startTime :: "string option"
  endDate :: "string option"
  endTime :: "string option"
  recurrence :: "Recurrence option"
  createdAt :: "string option"

text \<open>
  \<^verbatim>\<open>const toDateTime = (d, t, fallbackTime = "00:00") =>
    d ? new Date(`${d}T${t || fallbackTime}`) : null;\<close>
\<close>

definition toDateTime :: "int \<Rightarrow> string option \<Rightarrow> string option \<Rightarrow> string \<Rightarrow> jsdate option" where
  "toDateTime tz d t fallbackTime =
    (if truthy d
     then Some (Date_parse tz (the d @ ''T'' @ (if truthy t then the t else fallbackTime)))
     else None)"

text \<open>
  \<^verbatim>\<open>const addToYMD = (ymd, { days = 0, months = 0 }) => {
    const dt = new Date(`${ymd}T00:00`);
    if (months) dt.setMonth(dt.getMonth() + months);
    if (days) dt.setDate(dt.getDate() + days);
    return dt.toISOString().slice(0, 10);
  };\<close>
\<close>

definition addToYMD :: "int \<Rightarrow> string \<Rightarrow> int \<Rightarrow> int \<Rightarrow> js_error + string" where
  "addToYMD tz ymd days months =
    (let dt0 = Date_parse tz (ymd @ ''T00:00'');
         dt1 = (if months \<noteq> 0
                then setMonth tz dt0 (map_option (\<lambda>m. m + months) (getMonth tz dt0))
                else dt0);
         dt2 = (if days \<noteq> 0
                then setDate tz dt1 (map_option (\<lambda>d. d + days) (getDate tz dt1))
                else dt1)
     in case toISOString dt2 of
          Inl e \<Rightarrow> Inl e
        | Inr s \<Rightarrow> Inr (take 10 s))"

text \<open>
  \<^verbatim>\<open>const nextByRecurrence = (date, rule) => {
    if (!date) return undefined;
    switch (rule) {
      case "daily": return addToYMD(date, { days: 1 });
      case "weekly": return addToYMD(date, { days: 7 });
      case "monthly": return addToYMD(date, { months: 1 });
      default: return undefined;
    }
  };\<close>
\<close>

definition nextByRecurrence :: "int \<Rightarrow> string option \<Rightarrow> Recurrence \<Rightarrow> js_error + string option" where
  "nextByRecurrence tz date rule =
    (if \<not> truthy date then Inr None
     else case rule of
            daily \<Rightarrow> map_sum (\<lambda>e. e) Some (addToYMD tz (the date) 1 0)
          | weekly \<Rightarrow> map_sum (\<lambda>e. e) Some (addToYMD tz (the date) 7 0)
          | monthly \<Rightarrow> map_sum (\<lambda>e. e) Some (addToYMD tz (the date) 0 1)
          | none \<Rightarrow> Inr None)"

section \<open>Creating, editing and completing tasks\<close>

text \<open>\<^verbatim>\<open>String.prototype.trim\<close>, on the ASCII white space characters.\<close>

definition is_space :: "char \<Rightarrow> bool" where
  "is_space c = (c \<in> set [CHR '' '', CHR 0x09, CHR 0x0A, CHR 0x0B, CHR 0x0C, CHR 0x0D])"

definition trim :: "string \<Rightarrow> string" where
  "trim s = rev (dropWhile is_space (rev (dropWhile is_space s)))"

text \<open>\<^verbatim>\<open>a || b\<close> on strings.\<close>

definition or_str :: "string \<Rightarrow> string \<Rightarrow> string" where
  "or_str a b = (if a \<noteq> [] then a else b)"

text \<open>\<^verbatim>\<open>a < b\<close> on Dates compares the time values; a comparison with NaN is false.\<close>

fun date_lt :: "jsdate \<Rightarrow> jsdate \<Rightarrow> bool" where
  "date_lt (Date a) (Date b) = (a < b)"
| "date_lt _ _ = False"

text \<open>
  The state of a form: the add form (\<^verbatim>\<open>input\<close>, \<^verbatim>\<open>startDate\<close>, \<^verbatim>\<open>startTime\<close>, \<^verbatim>\<open>endDate\<close>,
  \<^verbatim>\<open>endTime\<close>, \<^verbatim>\<open>recurrence\<close>) or the edit form (\<^verbatim>\<open>editInput\<close>, \<^verbatim>\<open>editStartDate\<close>, ...).
  A blank field is the empty string.
\<close>

record Form =
  f_input :: string
  f_startDate :: string
  f_startTime :: string
  f_endDate :: string
  f_endTime :: string
  f_recurrence :: Recurrence

text \<open>
  Both handlers can return early: silently, or after the alert
  \<^verbatim>\<open>"End date/time cannot be earlier than start date/time."\<close>
\<close>

datatype rejection = Silent_Return | Validation_Alert

text \<open>
  \<^verbatim>\<open>addTask\<close> (lines 340-371). \<open>newId\<close> is the result of \<^verbatim>\<open>genId()\<close> and \<open>nowIso\<close> that
  of \<^verbatim>\<open>new Date().toISOString()\<close>; the result is the new value of \<^verbatim>\<open>tasks\<close>.
\<close>

definition addTask :: "int \<Rightarrow> string \<Rightarrow> string \<Rightarrow> Form \<Rightarrow> Task list \<Rightarrow> rejection + Task list" where
  "addTask tz newId nowIso f prev =
    (if trim (f_input f) = [] then Inl Silent_Return
     else
       let s = toDateTime tz (Some (f_startDate f)) (Some (f_startTime f)) ''00:00'';
           ed = toDateTime tz (Some (f_endDate f)) (Some (f_endTime f)) ''23:59''
       in if (case (s, ed) of (Some s', Some ed') \<Rightarrow> date_lt ed' s' | _ \<Rightarrow> False)
          then Inl Validation_Alert
          else Inr (prev @
            [\<lparr> tid = newId,
               title = trim (f_input f),
               completed = False,
               startDate = or_undefined (f_startDate f),
               startTime = or_undefined (f_startTime f),
               endDate = or_undefined (or_str (f_endDate f) (f_startDate f)),
               endTime = or_undefined (f_endTime f),
               recurrence = Some (f_recurrence f),
               createdAt = Some nowIso \<rparr>]))"

text \<open>\<^verbatim>\<open>saveEdit\<close> (lines 410-440); \<open>editingId\<close> is \<^verbatim>\<open>null\<close> when no task is being edited.\<close>

definition saveEdit :: "int \<Rightarrow> string option \<Rightarrow> Form \<Rightarrow> Task list \<Rightarrow> rejection + Task list" where
  "saveEdit tz editingId f prev =
    (if \<not> truthy editingId then Inl Silent_Return
     else
       let s = toDateTime tz (Some (f_startDate f)) (Some (f_startTime f)) ''00:00'';
           ed = toDateTime tz (Some (or_str (f_endDate f) (f_startDate f)))
                  (Some (or_str (or_str (f_endTime f) (f_startTime f)) ''23:59'')) ''00:00''
       in if (case (s, ed) of (Some s', Some ed') \<Rightarrow> date_lt ed' s' | _ \<Rightarrow> False)
          then Inl Validation_Alert
          else Inr (map (\<lambda>t.
            if tid t = the editingId
            then t\<lparr> title := or_str (trim (f_input f)) (title t),
                    startDate := or_undefined (f_startDate f),
                    startTime := or_undefined (f_startTime f),
                    endDate := or_undefined (or_str (f_endDate f) (f_startDate f)),
                    endTime := or_undefined (f_endTime f),
                    recurrence := Some (f_recurrence f) \<rparr>
            else t) prev))"

text \<open>
  \<^verbatim>\<open>toggleTask\<close> (lines 373-396). An exception of \<^verbatim>\<open>nextByRecurrence\<close> leaves the
  updater; it is the \<open>Inl\<close> result.
\<close>

definition toggleTask :: "int \<Rightarrow> string \<Rightarrow> string \<Rightarrow> string \<Rightarrow> Task list \<Rightarrow> js_error + Task list" where
  "toggleTask tz newId nowIso i prev =
    (let list = map (\<lambda>t. if tid t = i then t\<lparr> completed := \<not> completed t \<rparr> else t) prev
     in case find (\<lambda>tt. tid tt = i) list of
          None \<Rightarrow> Inr list
        | Some t \<Rightarrow>
            (case recurrence t of
               None \<Rightarrow> Inr list
             | Some r \<Rightarrow>
                 if completed t \<and> r \<noteq> none then
                   (case nextByRecurrence tz (startDate t) r of
                      Inl e \<Rightarrow> Inl e
                    | Inr nextStartDate \<Rightarrow>
                        (case nextByRecurrence tz (or_else (endDate t) (startDate t)) r of
                           Inl e \<Rightarrow> Inl e
                         | Inr nextEndDate \<Rightarrow>
                             if truthy nextStartDate \<or> truthy nextEndDate
                             then Inr (list @
                               [\<lparr> tid = newId,
                                  title = title t,
                                  completed = False,
                                  startDate = nextStartDate,
                                  startTime = startTime t,
                                  endDate = nextEndDate,
                                  endTime = endTime t,
                                  recurrence = Some r,
                                  createdAt = Some nowIso \<rparr>])
                             else Inr list))
                 else Inr list))"

section \<open>The countdown tick\<close>

text \<open>The table \<^verbatim>\<open>COLOR\<close> (lines 55-60).\<close>

datatype color = blue | yellow | red | redPulse

text \<open>
  The \<^verbatim>\<open>time\<close> text of a countdown: \<^verbatim>\<open>""\<close>, \<^verbatim>\<open>"Done"\<close>, or
  \<^verbatim>\<open>`${h}h ${pad2(m)}m ${pad2(s)}s left`\<close>, kept as the three numbers.
\<close>

datatype time_text = Blank | Done_text | Time_left int int int

record CountdownState =
  cd_title :: string
  cd_time :: time_text
  cd_color :: color

text \<open>
  What a tick does to the outside: \<^verbatim>\<open>alertAudioRef.current.pause()\<close> (with the rewind),
  \<^verbatim>\<open>alertAudioRef.current.play()\<close>, \<^verbatim>\<open>notifyAudioRef.current.play()\<close>, and
  \<^verbatim>\<open>new Notification("5 minutes left", ...)\<close>, tagged with the key it was recorded under
  and carrying the task title, minutes and seconds of its body. Both audio elements are
  mounted whenever the interval runs, so the refs are never null in a tick.
\<close>

datatype effect = Alarm_pause | Alarm_play | Chime_play | Notification string string int int

text \<open>
  The state a tick reads and writes: the React state \<^verbatim>\<open>lastColor\<close> (\<open>None\<close> for \<^verbatim>\<open>""\<close>),
  \<^verbatim>\<open>lastTaskKey\<close>, \<^verbatim>\<open>alarmStarted\<close>, \<^verbatim>\<open>countdown\<close>, and the set in \<^verbatim>\<open>notified5minRef\<close>.
\<close>

record Engine =
  lastColor :: "color option"
  lastTaskKey :: string
  alarmStarted :: bool
  countdown :: "CountdownState option"
  notified5min :: "string set"

definition initial_engine :: Engine where
  "initial_engine =
    \<lparr> lastColor = None, lastTaskKey = [], alarmStarted = False, countdown = None,
      notified5min = {} \<rparr>"

subsection \<open>Choosing the target (lines 225-270)\<close>

text \<open>\<^verbatim>\<open>const st = toDateTime(t.startDate, t.startTime, "00:00"); return st ? now >= st : true;\<close>\<close>

definition startOf :: "int \<Rightarrow> Task \<Rightarrow> jsdate option" where
  "startOf tz t = toDateTime tz (startDate t) (startTime t) ''00:00''"

definition isStarted :: "int \<Rightarrow> int \<Rightarrow> Task \<Rightarrow> bool" where
  "isStarted tz now t =
    (case startOf tz t of
       None \<Rightarrow> True
     | Some Invalid_Date \<Rightarrow> False
     | Some (Date st) \<Rightarrow> st \<le> now)"

text \<open>
  \<^verbatim>\<open>toDateTime(t.endDate || t.startDate, t.endTime || t.startTime || "23:59")
     || new Date(8640000000000000)\<close>
\<close>

definition dueOf :: "int \<Rightarrow> Task \<Rightarrow> jsdate" where
  "dueOf tz t =
    (case toDateTime tz (or_else (endDate t) (startDate t))
            (or_else (or_else (endTime t) (startTime t)) (Some ''23:59'')) ''00:00'' of
       None \<Rightarrow> Date 8640000000000000
     | Some d \<Rightarrow> d)"

text \<open>A candidate; \<open>due\<close> is the time value of the due Date, which is never NaN after the
  filter \<^verbatim>\<open>!Number.isNaN(c.due.getTime())\<close>.\<close>

record Cand =
  task :: Task
  due :: int
  start :: "jsdate option"

definition mkCand :: "int \<Rightarrow> Task \<Rightarrow> Cand option" where
  "mkCand tz t =
    (case dueOf tz t of
       Invalid_Date \<Rightarrow> None
     | Date d \<Rightarrow> Some \<lparr> task = t, due = d, start = startOf tz t \<rparr>)"

text \<open>
  The four ways the tick goes on after looking at the tasks; the first three are its
  early returns. \<^verbatim>\<open>candidates.sort((a, b) => a.due.getTime() - b.due.getTime())\<close> is a
  stable sort (ECMAScript 2019), as \<open>sort_key\<close> is; the target is \<^verbatim>\<open>candidates[0]\<close>.
\<close>

datatype selection = NoActiveTasks | NoneStartedYet | NoDeadlineSet | Selected Cand

definition selectTarget :: "int \<Rightarrow> Task list \<Rightarrow> int \<Rightarrow> selection" where
  "selectTarget tz tasks now =
    (let active = filter (\<lambda>t. \<not> completed t) tasks in
     if active = [] then NoActiveTasks
     else
       let started = filter (isStarted tz now) active in
       if started = [] then NoneStartedYet
       else
         let candidates = List.map_filter (mkCand tz) started in
         if candidates = [] then NoDeadlineSet
         else Selected (hd (sort_key due candidates)))"

subsection \<open>Colour (lines 295-308)\<close>

text \<open>
  \<^verbatim>\<open>let color = COLOR.blue;
  if (target.start && diffMs > 5 * 60 * 1000) {
    const half = target.start.getTime() + (target.due.getTime() - target.start.getTime()) / 2;
    if (now.getTime() >= half) color = COLOR.yellow;
  } else if (diffMs <= 24 * 60 * 60 * 1000 && diffMs > 5 * 60 * 1000) {
    color = COLOR.yellow;
  }
  if (diffMs <= 5 * 60 * 1000) { color = COLOR.red; ... }
  if (diffMs <= 60 * 1000) { color = COLOR.redPulse; ... }\<close>

  A Date object is truthy even when invalid; with an invalid start, \<open>half\<close> is NaN and
  the comparison is false. The halves are rationals: the time values of parsed dates are
  far below \<open>2^52\<close>, where the host's double arithmetic is exact.
\<close>

definition colorOf :: "jsdate option \<Rightarrow> int \<Rightarrow> int \<Rightarrow> color" where
  "colorOf st du now =
    (let diffMs = du - now;
         c1 = (if st \<noteq> None \<and> diffMs > 5 * 60 * 1000 then
                 (case the st of
                    Invalid_Date \<Rightarrow> blue
                  | Date s \<Rightarrow>
                      if (of_int now :: rat) \<ge> of_int s + of_int (du - s) / 2 then yellow else blue)
               else if diffMs \<le> 24 * 60 * 60 * 1000 \<and> diffMs > 5 * 60 * 1000 then yellow
               else blue);
         c2 = (if diffMs \<le> 5 * 60 * 1000 then red else c1)
     in if diffMs \<le> 60 * 1000 then redPulse else c2)"

subsection \<open>The one-shot notification (lines 206-220)\<close>

text \<open>
  \<open>granted\<close> says that \<^verbatim>\<open>Notification\<close> exists and \<^verbatim>\<open>notifPerm === "granted"\<close>. The result
  is the effects and the new content of \<^verbatim>\<open>notified5minRef\<close>; \<^verbatim>\<open>toISOString\<close> throws on
  an invalid Date.
\<close>

definition notifyKey :: "int \<Rightarrow> Task \<Rightarrow> js_error + string" where
  "notifyKey tz t =
    (case (case toDateTime tz (or_else (endDate t) (startDate t))
                 (or_else (or_else (endTime t) (startTime t)) (Some ''23:59'')) ''00:00'' of
             None \<Rightarrow> Inr []
           | Some d \<Rightarrow> toISOString d) of
       Inl e \<Rightarrow> Inl e
     | Inr dueIso \<Rightarrow> Inr (tid t @ ''-'' @ dueIso))"

definition show5minNotification ::
  "int \<Rightarrow> bool \<Rightarrow> Task \<Rightarrow> int \<Rightarrow> string set \<Rightarrow> js_error + effect list \<times> string set" where
  "show5minNotification tz granted t diffMs notified =
    (if \<not> granted then Inr ([], notified)
     else
       case notifyKey tz t of
         Inl e \<Rightarrow> Inl e
       | Inr key \<Rightarrow>
           if key \<in> notified then Inr ([], notified)
           else Inr ([Notification key (title t) (diffMs div 60000) (diffMs div 1000 mod 60)],
                     insert key notified))"

subsection \<open>The interval callback (lines 224-334)\<close>

text \<open>
  One run of the callback, at the instant \<open>now\<close> (\<^verbatim>\<open>new Date()\<close>), on the current \<^verbatim>\<open>tasks\<close>.
  The callback reads \<^verbatim>\<open>lastTaskKey\<close>, \<^verbatim>\<open>lastColor\<close> and \<^verbatim>\<open>alarmStarted\<close> from its closure,
  that is, as they were when the tick began (\<open>st\<close>), also after it has called a setter;
  the setters take effect after the tick, the last call winning. The effect re-creates
  the interval whenever one of them changes, so the next tick reads the new state.
\<close>

definition tick :: "int \<Rightarrow> bool \<Rightarrow> Task list \<Rightarrow> int \<Rightarrow> Engine \<Rightarrow> js_error + Engine \<times> effect list" where
  "tick tz granted tasks now st =
    (case selectTarget tz tasks now of
       NoActiveTasks \<Rightarrow>
         Inr (st\<lparr> alarmStarted := False, countdown := None, lastColor := None,
                  lastTaskKey := [] \<rparr>, [Alarm_pause])
     | NoneStartedYet \<Rightarrow>
         Inr (st\<lparr> alarmStarted := False,
                  countdown := Some \<lparr> cd_title = ''No tasks started yet'', cd_time = Blank,
                                      cd_color = blue \<rparr> \<rparr>, [Alarm_pause])
     | NoDeadlineSet \<Rightarrow>
         Inr (st\<lparr> countdown := Some \<lparr> cd_title = ''Set an end date/time to enable countdown'',
                                      cd_time = Blank, cd_color = blue \<rparr> \<rparr>, [])
     | Selected target \<Rightarrow>
         let targetKey = tid (task target) @ ''-'' @ iso_string (due target);
             changed = (targetKey \<noteq> lastTaskKey st);
             st1 = (if changed
                    then st\<lparr> alarmStarted := False, lastColor := None, lastTaskKey := targetKey \<rparr>
                    else st);
             eff1 = (if changed then [Alarm_pause] else []);
             diffMs = due target - now
         in
         if diffMs \<le> 0 then
           Inr (st1\<lparr> alarmStarted := False,
                     countdown := Some \<lparr> cd_title = title (task target), cd_time = Done_text,
                                         cd_color = blue \<rparr> \<rparr>, eff1 @ [Alarm_pause])
         else
           case (if diffMs \<le> 5 * 60 * 1000
                 then show5minNotification tz granted (task target) diffMs (notified5min st)
                 else Inr ([], notified5min st)) of
             Inl e \<Rightarrow> Inl e
           | Inr (eff2, notified) \<Rightarrow>
               let color = colorOf (start target) (due target) now;
                   eff3 = (if diffMs \<le> 60 * 1000
                           then (if \<not> alarmStarted st then [Alarm_play] else [])
                           else (if alarmStarted st then [Alarm_pause] else []));
                   st3 = (if diffMs \<le> 60 * 1000
                          then (if \<not> alarmStarted st then st1\<lparr> alarmStarted := True \<rparr> else st1)
                          else (if alarmStarted st then st1\<lparr> alarmStarted := False \<rparr> else st1));
                   eff4 = (if lastColor st \<noteq> None \<and> Some color \<noteq> lastColor st
                              \<and> diffMs > 60 * 1000
                           then [Chime_play] else [])
               in Inr (st3\<lparr> lastColor := Some color,
                            countdown := Some \<lparr> cd_title = title (task target),
                                                cd_time = Time_left (diffMs div 3600000)
                                                  (diffMs div 60000 mod 60)
                                                  (diffMs div 1000 mod 60),
                                                cd_color = color \<rparr>,
                            notified5min := notified \<rparr>,
                       eff1 @ eff2 @ eff3 @ eff4))"

text \<open>
  A session: the ticks in order, each on the tasks, the clock and the notification
  permission of its moment, from the state the previous one left. The result lists the
  effects tick by tick.
\<close>

fun run :: "int \<Rightarrow> Engine \<Rightarrow> (Task list \<times> int \<times> bool) list \<Rightarrow> js_error + Engine \<times> effect list list" where
  "run tz st [] = Inr (st, [])"
| "run tz st ((tasks, now, granted) # rest) =
    (case tick tz granted tasks now st of
       Inl e \<Rightarrow> Inl e
     | Inr (st', effs) \<Rightarrow>
         (case run tz st' rest of
            Inl e \<Rightarrow> Inl e
          | Inr (st'', effss) \<Rightarrow> Inr (st'', effs # effss)))"

section \<open>Notions of the specification\<close>


text \<open>
  The zones of the specification and the rule of its Zone Classifier, written after the
  specification's words, not after the code: \<open>remaining = due - now\<close>; \<open>Done\<close> if
  \<open>remaining \<le> 0\<close>; \<open>Critical\<close> if \<open>remaining \<le> 60s\<close>; \<open>Imminent\<close> if \<open>remaining \<le> 300s\<close>;
  otherwise, with a known start, \<open>Warning\<close> if \<open>now \<ge> start + (due - start) / 2\<close> and
  \<open>Normal\<close> if not; with no start, \<open>Warning\<close> if \<open>remaining \<le> 86400s\<close> and \<open>Normal\<close> if not.
\<close>

datatype zone = Normal | Warning | Imminent | Critical | Done

definition specZone :: "int option \<Rightarrow> int \<Rightarrow> int \<Rightarrow> zone" where
  "specZone st du now =
    (let remaining = du - now in
     if remaining \<le> 0 then Done
     else if remaining \<le> 60000 then Critical
     else if remaining \<le> 300000 then Imminent
     else case st of
            Some s \<Rightarrow> if (of_int now :: rat) \<ge> of_int s + of_int (du - s) / 2 then Warning else Normal
          | None \<Rightarrow> if remaining \<le> 86400000 then Warning else Normal)"

text \<open>The colour the specification gives each zone: neutral, caution, alert, pulsing alert.\<close>

fun zoneColor :: "zone \<Rightarrow> color" where
  "zoneColor Normal = blue"
| "zoneColor Warning = yellow"
| "zoneColor Imminent = red"
| "zoneColor Critical = redPulse"
| "zoneColor Done = blue"

text \<open>The start instant of a candidate, when it has one.\<close>

fun start_instant :: "jsdate option \<Rightarrow> int option" where
  "start_instant (Some (Date s)) = Some s"
| "start_instant _ = None"

text \<open>The notifications recorded under a key, and the chimes, among some effects.\<close>

definition notifications_for :: "string \<Rightarrow> effect list \<Rightarrow> effect list" where
  "notifications_for k effs =
    filter (\<lambda>e. case e of Notification k' _ _ _ \<Rightarrow> k' = k | _ \<Rightarrow> False) effs"


text \<open>The calls of \<^verbatim>\<open>play()\<close> on the alarm among some effects.\<close>

definition alarm_plays :: "effect list \<Rightarrow> nat" where
  "alarm_plays effs = length (filter (\<lambda>e. e = Alarm_play) effs)"

text \<open>
  The candidate a task gives to the ranking: the task must be active and started, and its
  due Date must hold a time value.
\<close>

definition eligible :: "int \<Rightarrow> int \<Rightarrow> Task \<Rightarrow> Cand option" where
  "eligible tz now t = (if \<not> completed t \<and> isStarted tz now t then mkCand tz t else None)"

section \<open>Example data\<close>

text \<open>Noon of 2024-01-01 in UTC, as a time value.\<close>

definition noon :: int where "noon = 1704110400000"

text \<open>A task as the add form stores it when only a title is typed in.\<close>

definition bare :: "string \<Rightarrow> Task" where
  "bare i = \<lparr> tid = i, title = i, completed = False, startDate = None, startTime = None,
      endDate = None, endTime = None, recurrence = Some none, createdAt = None \<rparr>"

text \<open>
  The tasks of the specification's example, for a host in UTC at \<open>noon\<close>: \<open>A\<close> is due in
  10 seconds, \<open>B\<close> starts (and is due) in 5 seconds, \<open>C\<close> started an hour ago and is due in
  20 seconds.
\<close>

definition task_A :: Task where
  "task_A = (bare ''A'')\<lparr> endDate := Some ''2024-01-01'', endTime := Some ''12:00:10'' \<rparr>"

definition task_B :: Task where
  "task_B = (bare ''B'')\<lparr> startDate := Some ''2024-01-01'', startTime := Some ''12:00:05'' \<rparr>"

definition task_C :: Task where
  "task_C = (bare ''C'')\<lparr> startDate := Some ''2024-01-01'', startTime := Some ''11:00'',
       endDate := Some ''2024-01-01'', endTime := Some ''12:00:20'' \<rparr>"

text \<open>A task whose end date is not a date, as an imported JSON file can hold it.\<close>

definition task_Z :: Task where
  "task_Z = (bare ''Z'')\<lparr> endDate := Some ''soon'' \<rparr>"


definition form_end_time_only :: Form where
  "form_end_time_only =
    \<lparr> f_input = ''t'', f_startDate = ''2024-01-01'', f_startTime = ''10:00'',
      f_endDate = [], f_endTime = ''09:00'', f_recurrence = none \<rparr>"


definition form_start_only :: Form where
  "form_start_only =
    \<lparr> f_input = ''t'', f_startDate = ''2024-01-01'', f_startTime = [],
      f_endDate = [], f_endTime = [], f_recurrence = none \<rparr>"

section \<open>Lists: the head of a stable sort\<close>

lemma hd_sort_key_Cons:
  "hd (sort_key f (x # xs)) =
     (if xs = [] then x else if f x \<le> f (hd (sort_key f xs)) then x else hd (sort_key f xs))"
proof (cases "sort_key f xs")
  case Nil
  then have "xs = []" by (metis length_0_conv length_sort)
  then show ?thesis by simp
next
  case (Cons y ys)
  then have "xs \<noteq> []" by auto
  with Cons show ?thesis by simp
qed

lemma hd_sort_key_in: "xs \<noteq> [] \<Longrightarrow> hd (sort_key f xs) \<in> set xs"
  by (metis hd_in_set set_sort sort_key_simps(1) length_0_conv length_sort)

lemma first_min_decomp:
  "xs \<noteq> [] \<Longrightarrow> \<exists>pre post. xs = pre @ hd (sort_key f xs) # post
      \<and> (\<forall>u\<in>set pre. f (hd (sort_key f xs)) < f u)
      \<and> (\<forall>u\<in>set post. f (hd (sort_key f xs)) \<le> f u)"
proof (induction xs)
  case Nil
  then show ?case by simp
next
  case (Cons x xs)
  show ?case
  proof (cases "xs = []")
    case True
    then have "x # xs = [] @ hd (sort_key f (x # xs)) # []" by simp
    then show ?thesis by (metis empty_iff list.set(1))
  next
    case False
    let ?m = "hd (sort_key f xs)"
    from Cons.IH [OF False] obtain pre post where
      d: "xs = pre @ ?m # post" "\<forall>u\<in>set pre. f ?m < f u" "\<forall>u\<in>set post. f ?m \<le> f u"
      by blast
    show ?thesis
    proof (cases "f x \<le> f ?m")
      case True
      have h: "hd (sort_key f (x # xs)) = x"
        using True False by (simp only: hd_sort_key_Cons if_True if_False)
      have "\<forall>u\<in>set xs. f x \<le> f u"
      proof
        fix u assume "u \<in> set xs"
        then have "u \<in> set pre \<or> u = ?m \<or> u \<in> set post"
          using d(1) by (metis Un_iff set_ConsD set_append)
        with d(2,3) True show "f x \<le> f u" by force
      qed
      then show ?thesis unfolding h by (intro exI [of _ "[]"] exI [of _ xs]) simp
    next
      case nle: False
      have h: "hd (sort_key f (x # xs)) = ?m"
        using nle False by (simp only: hd_sort_key_Cons if_True if_False)
      have "x # xs = (x # pre) @ ?m # post" using d(1) by simp
      moreover have "\<forall>u\<in>set (x # pre). f ?m < f u" using d(2) nle by auto
      ultimately show ?thesis unfolding h using d(3) by blast
    qed
  qed
qed

lemma first_min_unique:
  "(\<forall>u\<in>set pre. f x < f u) \<Longrightarrow> (\<forall>u\<in>set post. f x \<le> f u)
     \<Longrightarrow> hd (sort_key f (pre @ x # post)) = x"
proof (induction pre)
  case Nil
  show ?case
  proof (cases "post = []")
    case True then show ?thesis by simp
  next
    case False
    then have "hd (sort_key f post) \<in> set post" by (rule hd_sort_key_in)
    with Nil have "f x \<le> f (hd (sort_key f post))" by blast
    with False show ?thesis by (simp only: append_Nil hd_sort_key_Cons if_True if_False)
  qed
next
  case (Cons p pre)
  then have ih: "hd (sort_key f (pre @ x # post)) = x" by simp
  have "\<not> f p \<le> f x" using Cons.prems(1) by auto
  moreover have "pre @ x # post \<noteq> []" by simp
  ultimately show ?case using ih
    by (simp only: append_Cons hd_sort_key_Cons if_True if_False)
qed

lemma map_filter_append: "List.map_filter g (xs @ ys) = List.map_filter g xs @ List.map_filter g ys"
  by (simp add: List.map_filter_def)

lemma map_filter_Cons_Some: "g x = Some y \<Longrightarrow> List.map_filter g (x # xs) = y # List.map_filter g xs"
  by (simp add: List.map_filter_def)

lemma map_filter_Cons_None: "g x = None \<Longrightarrow> List.map_filter g (x # xs) = List.map_filter g xs"
  by (simp add: List.map_filter_def)

lemma set_map_filter: "set (List.map_filter g xs) = {y. \<exists>x\<in>set xs. g x = Some y}"
  by (induction xs) (auto simp: List.map_filter_def)

lemma map_filter_decomp:
  "List.map_filter g xs = cpre @ c # cpost \<Longrightarrow>
     \<exists>pre t post. xs = pre @ t # post \<and> g t = Some c
        \<and> List.map_filter g pre = cpre \<and> List.map_filter g post = cpost"
proof (induction xs arbitrary: cpre)
  case Nil
  then show ?case by (simp add: List.map_filter_def)
next
  case (Cons x xs)
  show ?case
  proof (cases "g x")
    case None
    with Cons.prems have "List.map_filter g xs = cpre @ c # cpost"
      by (simp add: map_filter_Cons_None)
    from Cons.IH [OF this] obtain pre t post where
      "xs = pre @ t # post" "g t = Some c" "List.map_filter g pre = cpre"
      "List.map_filter g post = cpost" by blast
    then have "x # xs = (x # pre) @ t # post \<and> g t = Some c
        \<and> List.map_filter g (x # pre) = cpre \<and> List.map_filter g post = cpost"
      using None by (simp add: map_filter_Cons_None)
    then show ?thesis by blast
  next
    case (Some y)
    with Cons.prems have e: "y # List.map_filter g xs = cpre @ c # cpost"
      by (simp add: map_filter_Cons_Some)
    show ?thesis
    proof (cases cpre)
      case Nil
      with e have "y = c" "List.map_filter g xs = cpost" by simp_all
      then have "x # xs = [] @ x # xs \<and> g x = Some c \<and> List.map_filter g [] = cpre
          \<and> List.map_filter g xs = cpost"
        using Some Nil by (simp add: List.map_filter_def)
      then show ?thesis by blast
    next
      case (Cons a cpre')
      with e have "a = y" "List.map_filter g xs = cpre' @ c # cpost" by simp_all
      from Cons.IH [OF this(2)] obtain pre t post where
        "xs = pre @ t # post" "g t = Some c" "List.map_filter g pre = cpre'"
        "List.map_filter g post = cpost" by blast
      then have "x # xs = (x # pre) @ t # post \<and> g t = Some c
          \<and> List.map_filter g (x # pre) = cpre \<and> List.map_filter g post = cpost"
        using Some Cons \<open>a = y\<close> by (simp add: map_filter_Cons_Some)
      then show ?thesis by blast
    qed
  qed
qed

section \<open>The target and the tick, written out\<close>

lemma candidates_eligible:
  "List.map_filter (mkCand tz) (filter (isStarted tz now) (filter (\<lambda>t. \<not> completed t) tasks))
     = List.map_filter (eligible tz now) tasks"
  by (induction tasks) (simp_all add: List.map_filter_def eligible_def)

lemma selectTarget_eligible:
  "selectTarget tz tasks now = Selected c \<longleftrightarrow>
     List.map_filter (eligible tz now) tasks \<noteq> []
     \<and> c = hd (sort_key due (List.map_filter (eligible tz now) tasks))"
proof -
  let ?a = "filter (\<lambda>t. \<not> completed t) tasks"
  let ?s = "filter (isStarted tz now) ?a"
  have e: "List.map_filter (mkCand tz) ?s = List.map_filter (eligible tz now) tasks"
    by (rule candidates_eligible)
  have a: "?a = [] \<Longrightarrow> List.map_filter (eligible tz now) tasks = []"
    unfolding e [symmetric] by (simp add: List.map_filter_def)
  have s: "?s = [] \<Longrightarrow> List.map_filter (eligible tz now) tasks = []"
    unfolding e [symmetric] by (simp add: List.map_filter_def)
  show ?thesis
  proof (cases "?a = []")
    case True
    with a show ?thesis by (simp add: selectTarget_def)
  next
    case na: False
    show ?thesis
    proof (cases "?s = []")
      case True
      with s na show ?thesis by (simp add: selectTarget_def Let_def del: filter_filter)
    next
      case False
      with na show ?thesis
        by (auto simp add: selectTarget_def Let_def e simp del: filter_filter)
    qed
  qed
qed

lemma mkCand_Some:
  "mkCand tz t = Some c \<longleftrightarrow> dueOf tz t = Date (due c) \<and> task c = t \<and> start c = startOf tz t"
  by (cases c) (auto simp: mkCand_def split: jsdate.splits)

lemma eligible_Some:
  "eligible tz now t = Some c \<longleftrightarrow>
     \<not> completed t \<and> isStarted tz now t \<and> dueOf tz t = Date (due c) \<and> task c = t
     \<and> start c = startOf tz t"
  by (auto simp: eligible_def mkCand_Some)

lemma selectTarget_first_minimal:
  "selectTarget tz tasks now = Selected c \<longleftrightarrow>
     (\<exists>pre t post. tasks = pre @ t # post
        \<and> \<not> completed t \<and> isStarted tz now t
        \<and> dueOf tz t = Date (due c) \<and> task c = t \<and> start c = startOf tz t
        \<and> (\<forall>u\<in>set pre. \<not> completed u \<and> isStarted tz now u \<longrightarrow>
              (\<forall>d. dueOf tz u = Date d \<longrightarrow> due c < d))
        \<and> (\<forall>u\<in>set post. \<not> completed u \<and> isStarted tz now u \<longrightarrow>
              (\<forall>d. dueOf tz u = Date d \<longrightarrow> due c \<le> d)))"
  (is "?L \<longleftrightarrow> ?R")
proof
  let ?g = "eligible tz now"
  let ?cs = "List.map_filter ?g tasks"
  assume ?L
  then have ne: "?cs \<noteq> []" and c: "c = hd (sort_key due ?cs)"
    by (simp_all add: selectTarget_eligible)
  from first_min_decomp [OF ne, of due] c obtain cpre cpost where
    d: "?cs = cpre @ c # cpost" "\<forall>u\<in>set cpre. due c < due u" "\<forall>u\<in>set cpost. due c \<le> due u"
    by auto
  from map_filter_decomp [OF d(1)] obtain pre t post where
    t: "tasks = pre @ t # post" "?g t = Some c" "List.map_filter ?g pre = cpre"
       "List.map_filter ?g post = cpost" by blast
  have pre: "due c < d" if "u \<in> set pre" "\<not> completed u" "isStarted tz now u" "dueOf tz u = Date d"
    for u d
  proof -
    have "?g u = Some \<lparr> task = u, due = d, start = startOf tz u \<rparr>"
      using that by (simp add: eligible_Some)
    then have "\<lparr> task = u, due = d, start = startOf tz u \<rparr> \<in> set cpre"
      using that(1) t(3) by (auto simp: set_map_filter)
    with d(2) show ?thesis by force
  qed
  have post: "due c \<le> d" if "u \<in> set post" "\<not> completed u" "isStarted tz now u" "dueOf tz u = Date d"
    for u d
  proof -
    have "?g u = Some \<lparr> task = u, due = d, start = startOf tz u \<rparr>"
      using that by (simp add: eligible_Some)
    then have "\<lparr> task = u, due = d, start = startOf tz u \<rparr> \<in> set cpost"
      using that(1) t(4) by (auto simp: set_map_filter)
    with d(3) show ?thesis by force
  qed
  from t(1,2) pre post show ?R
    unfolding eligible_Some by blast
next
  let ?g = "eligible tz now"
  assume ?R
  then obtain pre t post where
    t: "tasks = pre @ t # post" "\<not> completed t" "isStarted tz now t"
       "dueOf tz t = Date (due c)" "task c = t" "start c = startOf tz t"
    and pre: "\<forall>u\<in>set pre. \<not> completed u \<and> isStarted tz now u \<longrightarrow>
              (\<forall>d. dueOf tz u = Date d \<longrightarrow> due c < d)"
    and post: "\<forall>u\<in>set post. \<not> completed u \<and> isStarted tz now u \<longrightarrow>
              (\<forall>d. dueOf tz u = Date d \<longrightarrow> due c \<le> d)"
    by blast
  have g: "?g t = Some c" using t by (simp add: eligible_Some)
  have cs: "List.map_filter ?g tasks = List.map_filter ?g pre @ c # List.map_filter ?g post"
    unfolding t(1) map_filter_append using g by (simp add: List.map_filter_def)
  have 1: "\<forall>u\<in>set (List.map_filter ?g pre). due c < due u"
    using pre by (auto simp: set_map_filter eligible_Some)
  have 2: "\<forall>u\<in>set (List.map_filter ?g post). due c \<le> due u"
    using post by (auto simp: set_map_filter eligible_Some)
  have "hd (sort_key due (List.map_filter ?g tasks)) = c"
    unfolding cs by (rule first_min_unique [OF 1 2])
  then show ?L
    unfolding selectTarget_eligible cs by simp
qed

lemma isStarted_iff:
  "isStarted tz now t \<longleftrightarrow>
     startOf tz t = None \<or> (\<exists>s. startOf tz t = Some (Date s) \<and> s \<le> now)"
  by (auto simp: isStarted_def split: option.splits jsdate.splits)

lemma selectTarget_example:
  assumes "\<not> completed A" "isStarted tz now A" "dueOf tz A = Date (now + 10000)"
    and "\<not> isStarted tz now B" "dueOf tz B = Date (now + 5000)"
    and "\<not> completed C" "isStarted tz now C" "dueOf tz C = Date (now + 20000)"
  shows "selectTarget tz [A, B, C] now
           = Selected \<lparr> task = A, due = now + 10000, start = startOf tz A \<rparr>"
  unfolding selectTarget_first_minimal
  using assms by (intro exI [of _ "[]"] exI [of _ A] exI [of _ "[B, C]"]) auto

lemma selected_eligible:
  assumes "selectTarget tz tasks now = Selected c"
  shows "\<exists>t\<in>set tasks. eligible tz now t = Some c"
proof -
  let ?cs = "List.map_filter (eligible tz now) tasks"
  from assms have "?cs \<noteq> []" "c = hd (sort_key due ?cs)"
    by (simp_all add: selectTarget_eligible)
  then have "c \<in> set ?cs" by (simp add: hd_sort_key_in)
  then show ?thesis by (auto simp: set_map_filter)
qed

lemma selected_facts:
  assumes "selectTarget tz tasks now = Selected c"
  shows "\<not> completed (task c)" "isStarted tz now (task c)" "dueOf tz (task c) = Date (due c)"
    "start c = startOf tz (task c)" "task c \<in> set tasks"
  using selected_eligible [OF assms] by (auto simp: eligible_Some)

lemma selected_start:
  assumes "selectTarget tz tasks now = Selected c"
  shows "start c = None \<or> (\<exists>s. start c = Some (Date s) \<and> s \<le> now)"
  using selected_facts(2,4) [OF assms] by (simp add: isStarted_iff)

lemma notifyKey_total:
  assumes "dueOf tz t = Date d"
  shows "\<exists>k. notifyKey tz t = Inr k"
  using assms by (auto simp: notifyKey_def dueOf_def split: option.splits)

lemma show5min_total:
  assumes "dueOf tz t = Date d"
  shows "\<exists>effs n. show5minNotification tz granted t diffMs notified = Inr (effs, n)"
  using notifyKey_total [OF assms] by (auto simp: show5minNotification_def)

lemma colorOf_specZone:
  assumes "st = None \<or> (\<exists>s. st = Some (Date s))" "0 < du - now"
  shows "colorOf st du now = zoneColor (specZone (start_instant st) du now)"
  using assms by (auto simp: colorOf_def specZone_def Let_def)

lemma specZone_Done: "specZone st du now = Done \<longleftrightarrow> du - now \<le> 0"
  by (auto simp: specZone_def Let_def split: option.splits)

lemma show5min_cases:
  assumes "show5minNotification tz granted t diffMs notified = Inr (effs, n)"
  shows "(effs = [] \<and> n = notified)
       \<or> (\<exists>key. granted \<and> notifyKey tz t = Inr key \<and> key \<notin> notified
            \<and> effs = [Notification key (title t) (diffMs div 60000) (diffMs div 1000 mod 60)]
            \<and> n = insert key notified)"
  using assms by (auto simp: show5minNotification_def split: if_splits sum.splits)

lemma show5min_granted:
  assumes "notifyKey tz t = Inr key"
  shows "show5minNotification tz granted t diffMs notified =
     Inr (if granted \<and> key \<notin> notified
          then [Notification key (title t) (diffMs div 60000) (diffMs div 1000 mod 60)] else [],
          if granted then insert key notified else notified)"
  using assms by (auto simp: show5minNotification_def)


lemma alarm_plays_simps:
  "alarm_plays [] = 0" "alarm_plays (xs @ ys) = alarm_plays xs + alarm_plays ys"
  "alarm_plays [Alarm_pause] = 0" "alarm_plays [Alarm_play] = 1" "alarm_plays [Chime_play] = 0"
  "alarm_plays [Notification k a b c] = 0"
  by (simp_all add: alarm_plays_def)

lemma notifications_for_simps:
  "notifications_for k [] = []"
  "notifications_for k (xs @ ys) = notifications_for k xs @ notifications_for k ys"
  "notifications_for k [Alarm_pause] = []" "notifications_for k [Alarm_play] = []"
  "notifications_for k [Chime_play] = []"
  "notifications_for k [Notification k' a b c] = (if k' = k then [Notification k' a b c] else [])"
  by (simp_all add: notifications_for_def)

text \<open>The tick on a selected target whose due instant is still ahead, and on one whose due
  instant has passed, written out.\<close>

lemma tick_selected_ahead:
  assumes sel: "selectTarget tz tasks now = Selected c" and pos: "0 < due c - now"
  shows "\<exists>key. notifyKey tz (task c) = Inr key \<and>
    tick tz granted tasks now st =
      Inr ((if tid (task c) @ ''-'' @ iso_string (due c) \<noteq> lastTaskKey st
            then st\<lparr> lastTaskKey := tid (task c) @ ''-'' @ iso_string (due c) \<rparr> else st)
           \<lparr> alarmStarted := (due c - now \<le> 60000
               \<and> (\<not> alarmStarted st \<or> tid (task c) @ ''-'' @ iso_string (due c) = lastTaskKey st)),
             lastColor := Some (colorOf (start c) (due c) now),
             countdown := Some \<lparr> cd_title = title (task c),
                 cd_time = Time_left ((due c - now) div 3600000) ((due c - now) div 60000 mod 60)
                             ((due c - now) div 1000 mod 60),
                 cd_color = colorOf (start c) (due c) now \<rparr>,
             notified5min := (if due c - now \<le> 300000 \<and> granted
                              then insert key (notified5min st) else notified5min st) \<rparr>,
           (if tid (task c) @ ''-'' @ iso_string (due c) \<noteq> lastTaskKey st then [Alarm_pause] else [])
           @ (if due c - now \<le> 300000 \<and> granted \<and> key \<notin> notified5min st
              then [Notification key (title (task c)) ((due c - now) div 60000)
                      ((due c - now) div 1000 mod 60)] else [])
           @ (if due c - now \<le> 60000 then (if \<not> alarmStarted st then [Alarm_play] else [])
              else (if alarmStarted st then [Alarm_pause] else []))
           @ (if lastColor st \<noteq> None \<and> Some (colorOf (start c) (due c) now) \<noteq> lastColor st
                 \<and> 60000 < due c - now then [Chime_play] else []))"
proof -
  obtain key where k: "notifyKey tz (task c) = Inr key"
    using notifyKey_total [OF selected_facts(3) [OF sel]] by blast
  have n: "\<not> due c - now \<le> 0" "\<not> due c \<le> now" using pos by simp_all
  have "tick tz granted tasks now st = Inr ((if tid (task c) @ ''-'' @ iso_string (due c) \<noteq> lastTaskKey st
            then st\<lparr> lastTaskKey := tid (task c) @ ''-'' @ iso_string (due c) \<rparr> else st)
           \<lparr> alarmStarted := (due c - now \<le> 60000
               \<and> (\<not> alarmStarted st \<or> tid (task c) @ ''-'' @ iso_string (due c) = lastTaskKey st)),
             lastColor := Some (colorOf (start c) (due c) now),
             countdown := Some \<lparr> cd_title = title (task c),
                 cd_time = Time_left ((due c - now) div 3600000) ((due c - now) div 60000 mod 60)
                             ((due c - now) div 1000 mod 60),
                 cd_color = colorOf (start c) (due c) now \<rparr>,
             notified5min := (if due c - now \<le> 300000 \<and> granted
                              then insert key (notified5min st) else notified5min st) \<rparr>,
           (if tid (task c) @ ''-'' @ iso_string (due c) \<noteq> lastTaskKey st then [Alarm_pause] else [])
           @ (if due c - now \<le> 300000 \<and> granted \<and> key \<notin> notified5min st
              then [Notification key (title (task c)) ((due c - now) div 60000)
                      ((due c - now) div 1000 mod 60)] else [])
           @ (if due c - now \<le> 60000 then (if \<not> alarmStarted st then [Alarm_play] else [])
              else (if alarmStarted st then [Alarm_pause] else []))
           @ (if lastColor st \<noteq> None \<and> Some (colorOf (start c) (due c) now) \<noteq> lastColor st
                 \<and> 60000 < due c - now then [Chime_play] else []))"
    unfolding tick_def sel selection.case Let_def
    by (simp add: n show5min_granted [OF k]) 
  with k show ?thesis by blast
qed


lemma tick_selected_done:
  assumes sel: "selectTarget tz tasks now = Selected c" and le: "due c - now \<le> 0"
  shows "tick tz granted tasks now st =
      Inr ((if tid (task c) @ ''-'' @ iso_string (due c) \<noteq> lastTaskKey st
            then st\<lparr> lastColor := None, lastTaskKey := tid (task c) @ ''-'' @ iso_string (due c) \<rparr>
            else st)
           \<lparr> alarmStarted := False,
             countdown := Some \<lparr> cd_title = title (task c), cd_time = Done_text,
                                 cd_color = blue \<rparr> \<rparr>,
           (if tid (task c) @ ''-'' @ iso_string (due c) \<noteq> lastTaskKey st then [Alarm_pause] else [])
           @ [Alarm_pause])"
  unfolding tick_def sel selection.case Let_def using le by simp

lemma tick_total: "\<exists>st' effs. tick tz granted tasks now st = Inr (st', effs)"
proof (cases "selectTarget tz tasks now")
  case (Selected c)
  show ?thesis
  proof (cases "due c - now \<le> 0")
    case True
    from tick_selected_done [OF Selected True] show ?thesis by blast
  next
    case False
    then have "0 < due c - now" by simp
    from tick_selected_ahead [OF Selected this] show ?thesis by blast
  qed
qed (simp_all add: tick_def)

lemma tick_ahead_notes:
  assumes sel: "selectTarget tz tasks now = Selected c" and pos: "0 < due c - now"
  shows "\<exists>key st' effs. tick tz granted tasks now st = Inr (st', effs)
     \<and> notifyKey tz (task c) = Inr key
     \<and> notified5min st' = (if due c - now \<le> 300000 \<and> granted
                            then insert key (notified5min st) else notified5min st)
     \<and> (\<forall>k. notifications_for k effs =
           (if due c - now \<le> 300000 \<and> granted \<and> key \<notin> notified5min st \<and> k = key
            then [Notification key (title (task c)) ((due c - now) div 60000)
                    ((due c - now) div 1000 mod 60)]
            else []))"
proof -
  from tick_selected_ahead [OF sel pos, of granted st] obtain key st' effs where
    k: "notifyKey tz (task c) = Inr key"
    and t: "tick tz granted tasks now st = Inr (st', effs)"
    and st': "st' = (if tid (task c) @ ''-'' @ iso_string (due c) \<noteq> lastTaskKey st
            then st\<lparr> lastTaskKey := tid (task c) @ ''-'' @ iso_string (due c) \<rparr> else st)
           \<lparr> alarmStarted := (due c - now \<le> 60000
               \<and> (\<not> alarmStarted st \<or> tid (task c) @ ''-'' @ iso_string (due c) = lastTaskKey st)),
             lastColor := Some (colorOf (start c) (due c) now),
             countdown := Some \<lparr> cd_title = title (task c),
                 cd_time = Time_left ((due c - now) div 3600000) ((due c - now) div 60000 mod 60)
                             ((due c - now) div 1000 mod 60),
                 cd_color = colorOf (start c) (due c) now \<rparr>,
             notified5min := (if due c - now \<le> 300000 \<and> granted
                              then insert key (notified5min st) else notified5min st) \<rparr>"
    and effs: "effs = (if tid (task c) @ ''-'' @ iso_string (due c) \<noteq> lastTaskKey st then [Alarm_pause] else [])
           @ (if due c - now \<le> 300000 \<and> granted \<and> key \<notin> notified5min st
              then [Notification key (title (task c)) ((due c - now) div 60000)
                      ((due c - now) div 1000 mod 60)] else [])
           @ (if due c - now \<le> 60000 then (if \<not> alarmStarted st then [Alarm_play] else [])
              else (if alarmStarted st then [Alarm_pause] else []))
           @ (if lastColor st \<noteq> None \<and> Some (colorOf (start c) (due c) now) \<noteq> lastColor st
                 \<and> 60000 < due c - now then [Chime_play] else [])"
    by force
  have n: "notified5min st' = (if due c - now \<le> 300000 \<and> granted
                            then insert key (notified5min st) else notified5min st)"
    unfolding st' by simp
  have e: "notifications_for k effs =
           (if due c - now \<le> 300000 \<and> granted \<and> key \<notin> notified5min st \<and> k = key
            then [Notification key (title (task c)) ((due c - now) div 60000)
                    ((due c - now) div 1000 mod 60)]
            else [])" for k
    unfolding effs by (simp add: notifications_for_simps)
  from t k n e show ?thesis by blast
qed

lemma tick_notified:
  assumes "tick tz granted tasks now st = Inr (st', effs)"
  shows "notified5min st \<subseteq> notified5min st'
     \<and> length (notifications_for k effs) \<le> (if k \<in> notified5min st then 0 else 1)
     \<and> (notifications_for k effs \<noteq> [] \<longrightarrow> k \<in> notified5min st')"
proof (cases "selectTarget tz tasks now")
  case (Selected c)
  show ?thesis
  proof (cases "due c - now \<le> 0")
    case True
    from assms show ?thesis
      unfolding tick_selected_done [OF Selected True]
      by (auto simp: notifications_for_def split: if_splits)
  next
    case False
    then have "0 < due c - now" by simp
    from tick_ahead_notes [OF Selected this, of granted st] assms obtain key where
      n: "notified5min st' = (if due c - now \<le> 300000 \<and> granted
                            then insert key (notified5min st) else notified5min st)"
      and e: "notifications_for k effs =
           (if due c - now \<le> 300000 \<and> granted \<and> key \<notin> notified5min st \<and> k = key
            then [Notification key (title (task c)) ((due c - now) div 60000)
                    ((due c - now) div 1000 mod 60)]
            else [])"
      by auto
    show ?thesis unfolding n e by auto
  qed
qed (use assms in \<open>auto simp: tick_def notifications_for_def\<close>)

lemma run_notified:
  "run tz st inputs = Inr (st', effss) \<Longrightarrow>
     notified5min st \<subseteq> notified5min st'
     \<and> length (notifications_for k (concat effss)) \<le> (if k \<in> notified5min st then 0 else 1)"
proof (induction inputs arbitrary: st effss)
  case Nil
  then show ?case by (simp add: notifications_for_simps)
next
  case (Cons i inputs)
  obtain tasks now granted where i: "i = (tasks, now, granted)" by (cases i) auto
  from Cons.prems obtain st1 effs rest where
    t: "tick tz granted tasks now st = Inr (st1, effs)"
    and r: "run tz st1 inputs = Inr (st', rest)" and e: "effss = effs # rest"
    by (auto simp: i split: sum.splits)
  note a = tick_notified [OF t, of k]
  note b = Cons.IH [OF r]
  show ?case
  proof (cases "k \<in> notified5min st")
    case True
    with a b show ?thesis unfolding e by (auto simp: notifications_for_simps)
  next
    case False
    show ?thesis
    proof (cases "notifications_for k effs = []")
      case True
      with a b show ?thesis unfolding e by (auto simp: notifications_for_simps split: if_splits)
    next
      case ne: False
      with a have "k \<in> notified5min st1" by simp
      with a b False show ?thesis unfolding e by (auto simp: notifications_for_simps)
    qed
  qed
qed

lemma run_total: "\<exists>st' effss. run tz st inputs = Inr (st', effss)"
proof (induction inputs arbitrary: st)
  case Nil
  then show ?case by simp
next
  case (Cons i inputs)
  obtain tasks now granted where i: "i = (tasks, now, granted)" by (cases i) auto
  obtain st1 effs where t: "tick tz granted tasks now st = Inr (st1, effs)"
    using tick_total by blast
  from Cons [of st1] obtain st' effss where "run tz st1 inputs = Inr (st', effss)" by blast
  with t show ?case by (simp add: i)
qed

section \<open>The claims\<close>

subsection \<open>Zone classification\<close>

text \<open>
  C1. For every selected target, with \<open>remaining = due - now\<close>, the tick shows the zone the
  specification's rule gives: \<open>Done\<close> (the text "Done", neutral colour) if
  \<open>remaining \<le> 0\<close>; \<open>Critical\<close> (pulsing alert) if \<open>0 < remaining \<le> 60s\<close>; \<open>Imminent\<close> (alert)
  if \<open>60s < remaining \<le> 300s\<close>; otherwise, with a known start, \<open>Warning\<close> (caution) if
  \<open>now \<ge> start + (due - start) / 2\<close> and \<open>Normal\<close> (neutral) if not, and with no start
  \<open>Warning\<close> if \<open>300s < remaining \<le> 86400s\<close> and \<open>Normal\<close> if not; every boundary is inclusive.
  The start of a selected target is absent or a valid instant, never an invalid Date.
  The colour computed for a due instant that is ahead is that of the zone for every
  start, due instant and clock, selected or not.
\<close>

theorem zone_classifier_refines_spec:
  assumes "selectTarget tz tasks now = Selected c"
  shows "(\<exists>st' effs. tick tz granted tasks now st = Inr (st', effs)
     \<and> start c \<noteq> Some Invalid_Date
     \<and> countdown st' = Some \<lparr> cd_title = title (task c),
          cd_time = (if specZone (start_instant (start c)) (due c) now = Done then Done_text
                     else Time_left ((due c - now) div 3600000) ((due c - now) div 60000 mod 60)
                            ((due c - now) div 1000 mod 60)),
          cd_color = zoneColor (specZone (start_instant (start c)) (due c) now) \<rparr>)
     \<and> (\<forall>s du n. 0 < du - n \<longrightarrow>
            colorOf (map_option Date s) du n = zoneColor (specZone s du n))"
proof (rule conjI)
  show "\<forall>s du n. 0 < du - n \<longrightarrow>
            colorOf (map_option Date s) du n = zoneColor (specZone s du n)"
  proof (intro allI impI)
    fix s :: "int option" and du n :: int
    assume pos: "0 < du - n"
    have v: "map_option Date s = None \<or> (\<exists>x. map_option Date s = Some (Date x))"
      by (cases s) simp_all
    have i: "start_instant (map_option Date s) = s" by (cases s) simp_all
    from colorOf_specZone [OF v pos] show
      "colorOf (map_option Date s) du n = zoneColor (specZone s du n)"
      by (simp only: i)
  qed
next
  have st: "start c = None \<or> (\<exists>s. start c = Some (Date s))"
    using selected_start [OF assms] by blast
  then have ninv: "start c \<noteq> Some Invalid_Date" by auto
  show "\<exists>st' effs. tick tz granted tasks now st = Inr (st', effs)
     \<and> start c \<noteq> Some Invalid_Date
     \<and> countdown st' = Some \<lparr> cd_title = title (task c),
          cd_time = (if specZone (start_instant (start c)) (due c) now = Done then Done_text
                     else Time_left ((due c - now) div 3600000) ((due c - now) div 60000 mod 60)
                            ((due c - now) div 1000 mod 60)),
          cd_color = zoneColor (specZone (start_instant (start c)) (due c) now) \<rparr>"
    (is ?tick)
  proof (cases "due c - now \<le> 0")
    case True
    then have z: "specZone (start_instant (start c)) (due c) now = Done"
      by (simp add: specZone_Done)
    show ?tick using True ninv
      by (simp add: tick_def assms Let_def z)
  next
    case False
    then have pos: "0 < due c - now" by simp
    have z: "specZone (start_instant (start c)) (due c) now \<noteq> Done"
      using False by (simp add: specZone_Done)
    have col: "colorOf (start c) (due c) now
                 = zoneColor (specZone (start_instant (start c)) (due c) now)"
      by (rule colorOf_specZone [OF st pos])
    obtain e2 n where s5: "show5minNotification tz granted (task c) (due c - now) (notified5min st)
        = Inr (e2, n)"
      using show5min_total [OF selected_facts(3) [OF assms]] by blast
    show ?tick
    proof (cases "due c - now \<le> 300000")
      case True
      then show ?tick using False ninv z
        by (simp add: tick_def assms Let_def s5 col)
    next
      case f: False
      then show ?tick using False ninv z
        by (simp add: tick_def assms Let_def col)
    qed
  qed
qed

text \<open>Witness: task \<open>A\<close>, due 10 seconds after \<open>noon\<close>, is shown as \<open>Critical\<close>; a task that
  started an hour ago is in \<open>Warning\<close> when it is due in an hour, and \<open>Normal\<close> when it is
  due a millisecond later.\<close>

theorem zone_classifier_witness:
  "selectTarget 0 [task_A] noon = Selected \<lparr> task = task_A, due = noon + 10000, start = None \<rparr>
   \<and> (\<exists>st' effs. tick 0 True [task_A] noon initial_engine = Inr (st', effs)
         \<and> countdown st'
             = Some \<lparr> cd_title = ''A'', cd_time = Time_left 0 0 10, cd_color = redPulse \<rparr>)
   \<and> colorOf (Some (Date (noon - 3600000))) (noon + 3600000) noon = yellow
   \<and> colorOf (Some (Date (noon - 3600000))) (noon + 3600001) noon = blue"
proof -
  have h: "selectTarget 0 [task_A] noon
             = Selected \<lparr> task = task_A, due = noon + 10000, start = None \<rparr>"
    by code_simp
  have z: "specZone None (noon + 10000) noon = Critical" by (simp add: specZone_def)
  have t: "title task_A = ''A''" by code_simp
  have w: "specZone (Some (noon - 3600000)) (noon + 3600000) noon = Warning"
    "specZone (Some (noon - 3600000)) (noon + 3600001) noon = Normal"
    by (simp_all add: specZone_def)
  note c = zone_classifier_refines_spec [OF h, of True initial_engine]
  from c [THEN conjunct1] h
  have 1: "\<exists>st' effs. tick 0 True [task_A] noon initial_engine = Inr (st', effs)
         \<and> countdown st'
             = Some \<lparr> cd_title = ''A'', cd_time = Time_left 0 0 10, cd_color = redPulse \<rparr>"
    by (simp add: z t)
  from c [THEN conjunct2, rule_format, of "noon + 3600000" noon "Some (noon - 3600000)"]
  have 2: "colorOf (Some (Date (noon - 3600000))) (noon + 3600000) noon = yellow"
    by (simp add: w)
  from c [THEN conjunct2, rule_format, of "noon + 3600001" noon "Some (noon - 3600000)"]
  have 3: "colorOf (Some (Date (noon - 3600000))) (noon + 3600001) noon = blue"
    by (simp add: w)
  from h 1 2 3 show ?thesis by blast
qed

subsection \<open>Target selection\<close>

text \<open>
  C2. For every task list and every \<open>now\<close>, the target is the candidate of the first task,
  in list order, that is active and started and whose due instant is minimal among the
  active started tasks: every such task before it is due strictly later, every such task
  after it is due no earlier. A task is started iff it has no start instant or its start
  instant is at or before \<open>now\<close>. In particular, of \<open>A\<close> (due in 10s), \<open>B\<close> (due in 5s, not
  started) and \<open>C\<close> (due in 20s, started), \<open>A\<close> is selected. The due instant of a task is the
  one the code ranks by (\<open>dueOf\<close>).
\<close>

theorem target_selector_first_minimal_due:
  "(selectTarget tz tasks now = Selected c \<longleftrightarrow>
     (\<exists>pre t post. tasks = pre @ t # post
        \<and> \<not> completed t \<and> isStarted tz now t
        \<and> dueOf tz t = Date (due c) \<and> task c = t \<and> start c = startOf tz t
        \<and> (\<forall>u\<in>set pre. \<not> completed u \<and> isStarted tz now u \<longrightarrow>
              (\<forall>d. dueOf tz u = Date d \<longrightarrow> due c < d))
        \<and> (\<forall>u\<in>set post. \<not> completed u \<and> isStarted tz now u \<longrightarrow>
              (\<forall>d. dueOf tz u = Date d \<longrightarrow> due c \<le> d))))
   \<and> (isStarted tz now t' \<longleftrightarrow>
        startOf tz t' = None \<or> (\<exists>s. startOf tz t' = Some (Date s) \<and> s \<le> now))
   \<and> (\<not> completed A \<and> isStarted tz now A \<and> dueOf tz A = Date (now + 10000)
        \<and> \<not> isStarted tz now B \<and> dueOf tz B = Date (now + 5000)
        \<and> \<not> completed C \<and> isStarted tz now C \<and> dueOf tz C = Date (now + 20000)
      \<longrightarrow> selectTarget tz [A, B, C] now
            = Selected \<lparr> task = A, due = now + 10000, start = startOf tz A \<rparr>)"
  using selectTarget_first_minimal [of tz tasks now c] isStarted_iff [of tz now t']
    selectTarget_example [of A tz now B C]
  by blast

text \<open>Witness: the example of the specification, for a host in UTC at \<open>noon\<close>.\<close>

theorem target_selector_example: "selectTarget 0 [task_A, task_B, task_C] noon
     = Selected \<lparr> task = task_A, due = noon + 10000, start = None \<rparr>"
proof -
  have h: "\<not> completed task_A \<and> isStarted 0 noon task_A \<and> dueOf 0 task_A = Date (noon + 10000)
    \<and> \<not> isStarted 0 noon task_B \<and> dueOf 0 task_B = Date (noon + 5000)
    \<and> \<not> completed task_C \<and> isStarted 0 noon task_C \<and> dueOf 0 task_C = Date (noon + 20000)"
    by code_simp
  have s: "startOf 0 task_A = None" by code_simp
  from target_selector_first_minimal_due [of 0 _ noon _ _ task_A task_B task_C, THEN conjunct2, THEN conjunct2, THEN mp, OF h]
  show ?thesis by (simp only: s)
qed

subsection \<open>Alarm\<close>

text \<open>
  C3 says that on every tick whose outcome is not \<open>Critical\<close>, \<open>NoDeadlineSet\<close> included, a
  playing alarm is stopped and the flag cleared. The branch for \<open>NoDeadlineSet\<close> (lines
  264-267) neither pauses the alarm nor clears \<^verbatim>\<open>alarmStarted\<close>, unlike the branches for
  \<open>NoActiveTasks\<close> and \<open>NoneStartedYet\<close> before it. Here the alarm starts for \<open>A\<close>, ten
  seconds before it is due; then \<open>A\<close> is completed and the only other task has an end
  date that is not a date: the tick has no effect on the alarm and the flag stays set.
\<close>

theorem alarm_left_on_at_NoDeadlineSet:
  "run 0 initial_engine
      [([task_A], noon, True), ([task_A\<lparr> completed := True \<rparr>, task_Z], noon + 1000, True)]
   = Inr (\<lparr> lastColor = Some redPulse, lastTaskKey = ''A-2024-01-01T12:00:10.000Z'',
            alarmStarted = True,
            countdown = Some \<lparr> cd_title = ''Set an end date/time to enable countdown'',
                                cd_time = Blank, cd_color = blue \<rparr>,
            notified5min = {''A-2024-01-01T12:00:10.000Z''} \<rparr>,
          [[Alarm_pause, Notification ''A-2024-01-01T12:00:10.000Z'' ''A'' 0 10, Alarm_play], []])
   \<and> selectTarget 0 [task_A\<lparr> completed := True \<rparr>, task_Z] (noon + 1000) = NoDeadlineSet"
  by code_simp

text \<open>
  Where the alarm does behave as C3 says. On a tick with a selected target whose due
  instant is ahead: in the \<open>Critical\<close> zone \<^verbatim>\<open>play()\<close> is called once if \<^verbatim>\<open>alarmStarted\<close> was
  clear and not at all if it was set; outside it, \<^verbatim>\<open>play()\<close> is not called, the flag is
  clear afterwards and a set flag means a pause. After a \<open>Critical\<close> tick the flag is set,
  unless the flag was set and the target has changed: the tick then pauses the alarm for
  the new target and leaves the flag clear, since it reads the flag as it was when the
  tick began, and the alarm starts again one tick later.
\<close>

lemma alarm_on_live_target:
  assumes sel: "selectTarget tz tasks now = Selected c" and pos: "0 < due c - now"
  shows "\<exists>st' effs. tick tz granted tasks now st = Inr (st', effs)
     \<and> (if due c - now \<le> 60000
         then alarm_plays effs = (if alarmStarted st then 0 else 1)
            \<and> alarmStarted st'
                = (\<not> alarmStarted st \<or> tid (task c) @ ''-'' @ iso_string (due c) = lastTaskKey st)
         else alarm_plays effs = 0 \<and> \<not> alarmStarted st'
            \<and> (alarmStarted st \<longrightarrow> Alarm_pause \<in> set effs))"
proof -
  from tick_selected_ahead [OF sel pos, of granted st] obtain key st' effs where
    t: "tick tz granted tasks now st = Inr (st', effs)"
    and st': "st' = (if tid (task c) @ ''-'' @ iso_string (due c) \<noteq> lastTaskKey st
            then st\<lparr> lastTaskKey := tid (task c) @ ''-'' @ iso_string (due c) \<rparr> else st)
           \<lparr> alarmStarted := (due c - now \<le> 60000
               \<and> (\<not> alarmStarted st \<or> tid (task c) @ ''-'' @ iso_string (due c) = lastTaskKey st)),
             lastColor := Some (colorOf (start c) (due c) now),
             countdown := Some \<lparr> cd_title = title (task c),
                 cd_time = Time_left ((due c - now) div 3600000) ((due c - now) div 60000 mod 60)
                             ((due c - now) div 1000 mod 60),
                 cd_color = colorOf (start c) (due c) now \<rparr>,
             notified5min := (if due c - now \<le> 300000 \<and> granted
                              then insert key (notified5min st) else notified5min st) \<rparr>"
    and effs: "effs = (if tid (task c) @ ''-'' @ iso_string (due c) \<noteq> lastTaskKey st then [Alarm_pause] else [])
           @ (if due c - now \<le> 300000 \<and> granted \<and> key \<notin> notified5min st
              then [Notification key (title (task c)) ((due c - now) div 60000)
                      ((due c - now) div 1000 mod 60)] else [])
           @ (if due c - now \<le> 60000 then (if \<not> alarmStarted st then [Alarm_play] else [])
              else (if alarmStarted st then [Alarm_pause] else []))
           @ (if lastColor st \<noteq> None \<and> Some (colorOf (start c) (due c) now) \<noteq> lastColor st
                 \<and> 60000 < due c - now then [Chime_play] else [])"
    by force
  have a: "alarmStarted st' = (due c - now \<le> 60000
               \<and> (\<not> alarmStarted st \<or> tid (task c) @ ''-'' @ iso_string (due c) = lastTaskKey st))"
    unfolding st' by simp
  have p: "alarm_plays effs = (if due c - now \<le> 60000 \<and> \<not> alarmStarted st then 1 else 0)"
    unfolding effs by (simp add: alarm_plays_simps)
  have q: "\<not> due c - now \<le> 60000 \<Longrightarrow> alarmStarted st \<Longrightarrow> Alarm_pause \<in> set effs"
    unfolding effs by simp
  from t a p q show ?thesis by auto
qed

text \<open>On a tick with no active task, with no started task, or with a target whose due
  instant has passed, the alarm is paused and the flag is clear afterwards.\<close>

lemma alarm_off_elsewhere:
  assumes "selectTarget tz tasks now = NoActiveTasks \<or> selectTarget tz tasks now = NoneStartedYet
     \<or> (\<exists>c. selectTarget tz tasks now = Selected c \<and> due c - now \<le> 0)"
  shows "\<exists>st' effs. tick tz granted tasks now st = Inr (st', effs)
     \<and> alarm_plays effs = 0 \<and> \<not> alarmStarted st' \<and> Alarm_pause \<in> set effs"
proof -
  consider "selectTarget tz tasks now = NoActiveTasks" | "selectTarget tz tasks now = NoneStartedYet"
    | c where "selectTarget tz tasks now = Selected c" "due c - now \<le> 0"
    using assms by blast
  then show ?thesis
  proof cases
    case 1
    then show ?thesis by (simp add: tick_def alarm_plays_def)
  next
    case 2
    then show ?thesis by (simp add: tick_def alarm_plays_def)
  next
    case 3
    show ?thesis
      unfolding tick_selected_done [OF 3] by (simp add: alarm_plays_def)
  qed
qed

text \<open>On a tick that ends in \<open>NoDeadlineSet\<close> nothing is done to the alarm.\<close>

lemma alarm_untouched_at_NoDeadlineSet:
  assumes "selectTarget tz tasks now = NoDeadlineSet"
  shows "\<exists>st'. tick tz granted tasks now st = Inr (st', [])
     \<and> alarmStarted st' = alarmStarted st"
  using assms by (simp add: tick_def)

text \<open>The alarm rings for \<open>A\<close>; \<open>A\<close> is completed and \<open>C\<close>, also \<open>Critical\<close>, becomes the
  target: that tick pauses the alarm, the next one starts it again.\<close>

lemma alarm_restart_delayed_on_target_change:
  "run 0 initial_engine
      [([task_A, task_C], noon, True), ([task_A\<lparr> completed := True \<rparr>, task_C], noon + 1000, True),
       ([task_A\<lparr> completed := True \<rparr>, task_C], noon + 2000, True)]
   = Inr (\<lparr> lastColor = Some redPulse, lastTaskKey = ''C-2024-01-01T12:00:20.000Z'',
            alarmStarted = True,
            countdown = Some \<lparr> cd_title = ''C'', cd_time = Time_left 0 0 18, cd_color = redPulse \<rparr>,
            notified5min = {''C-2024-01-01T12:00:20.000Z'', ''A-2024-01-01T12:00:10.000Z''} \<rparr>,
          [[Alarm_pause, Notification ''A-2024-01-01T12:00:10.000Z'' ''A'' 0 10, Alarm_play],
           [Alarm_pause, Notification ''C-2024-01-01T12:00:20.000Z'' ''C'' 0 19],
           [Alarm_play]])"
  by code_simp

subsection \<open>Notification\<close>

text \<open>
  C4. In every session, from the initial state and whatever the tasks, the clock and the
  permission are at each tick, at most one notification is recorded under any one key;
  and on every tick with a selected target and \<open>0 < remaining \<le> 300s\<close> the notification
  for the target's key is attempted: with the permission granted, the key is among the
  notified keys afterwards, and the notification is shown exactly if the key was not
  among them before.
\<close>

theorem notification_at_most_once:
  "(\<exists>st' effss. run tz initial_engine inputs = Inr (st', effss)
      \<and> (\<forall>k. length (notifications_for k (concat effss)) \<le> 1))
   \<and> (selectTarget tz tasks now = Selected c \<and> 0 < due c - now \<and> due c - now \<le> 300000 \<longrightarrow>
        (\<exists>st1 effs key. tick tz granted tasks now st = Inr (st1, effs)
           \<and> notifyKey tz (task c) = Inr key
           \<and> (\<forall>k. notifications_for k effs =
                 (if granted \<and> k = key \<and> key \<notin> notified5min st
                  then [Notification key (title (task c)) ((due c - now) div 60000)
                          ((due c - now) div 1000 mod 60)]
                  else []))
           \<and> notified5min st1 = (if granted then insert key (notified5min st)
                                  else notified5min st)))"
proof (intro conjI impI)
  obtain st' effss where r: "run tz initial_engine inputs = Inr (st', effss)"
    using run_total by blast
  have "length (notifications_for k (concat effss)) \<le> 1" for k
    using run_notified [OF r, of k] by (simp split: if_splits)
  with r show "\<exists>st' effss. run tz initial_engine inputs = Inr (st', effss)
      \<and> (\<forall>k. length (notifications_for k (concat effss)) \<le> 1)" by blast
next
  assume a: "selectTarget tz tasks now = Selected c \<and> 0 < due c - now \<and> due c - now \<le> 300000"
  then have sel: "selectTarget tz tasks now = Selected c" and pos: "0 < due c - now"
    and le: "due c - now \<le> 300000" by simp_all
  from tick_ahead_notes [OF sel pos, of granted st] obtain key st1 effs where
    "tick tz granted tasks now st = Inr (st1, effs)" "notifyKey tz (task c) = Inr key"
    "notified5min st1 = (if due c - now \<le> 300000 \<and> granted
                            then insert key (notified5min st) else notified5min st)"
    "\<forall>k. notifications_for k effs =
           (if due c - now \<le> 300000 \<and> granted \<and> key \<notin> notified5min st \<and> k = key
            then [Notification key (title (task c)) ((due c - now) div 60000)
                    ((due c - now) div 1000 mod 60)]
            else [])"
    by blast
  then have "tick tz granted tasks now st = Inr (st1, effs)
           \<and> notifyKey tz (task c) = Inr key
           \<and> (\<forall>k. notifications_for k effs =
                 (if granted \<and> k = key \<and> key \<notin> notified5min st
                  then [Notification key (title (task c)) ((due c - now) div 60000)
                          ((due c - now) div 1000 mod 60)]
                  else []))
           \<and> notified5min st1 = (if granted then insert key (notified5min st)
                                  else notified5min st)"
    using le by auto
  then show "\<exists>st1 effs key. tick tz granted tasks now st = Inr (st1, effs)
           \<and> notifyKey tz (task c) = Inr key
           \<and> (\<forall>k. notifications_for k effs =
                 (if granted \<and> k = key \<and> key \<notin> notified5min st
                  then [Notification key (title (task c)) ((due c - now) div 60000)
                          ((due c - now) div 1000 mod 60)]
                  else []))
           \<and> notified5min st1 = (if granted then insert key (notified5min st)
                                  else notified5min st)"
    by blast
qed

text \<open>Witness: three ticks on task \<open>A\<close> while it is \<open>Imminent\<close> and then \<open>Critical\<close>; one
  notification.\<close>

theorem notification_witness:
  "run 0 initial_engine
      [([task_A], noon - 200000, True), ([task_A], noon - 199000, True), ([task_A], noon, True)]
   = Inr (\<lparr> lastColor = Some redPulse, lastTaskKey = ''A-2024-01-01T12:00:10.000Z'',
            alarmStarted = True,
            countdown = Some \<lparr> cd_title = ''A'', cd_time = Time_left 0 0 10, cd_color = redPulse \<rparr>,
            notified5min = {''A-2024-01-01T12:00:10.000Z''} \<rparr>,
          [[Alarm_pause, Notification ''A-2024-01-01T12:00:10.000Z'' ''A'' 3 30], [], [Alarm_play]])
   \<and> length (notifications_for ''A-2024-01-01T12:00:10.000Z''
        (concat [[Alarm_pause, Notification ''A-2024-01-01T12:00:10.000Z'' ''A'' 3 30], [],
                 [Alarm_play]])) \<le> 1
   \<and> (\<exists>st1 effs. tick 0 True [task_A] (noon - 200000) initial_engine = Inr (st1, effs)
         \<and> notifications_for ''A-2024-01-01T12:00:10.000Z'' effs
             = [Notification ''A-2024-01-01T12:00:10.000Z'' ''A'' 3 30]
         \<and> notified5min st1 = {''A-2024-01-01T12:00:10.000Z''})"
proof -
  let ?inputs = "[([task_A], noon - 200000, True), ([task_A], noon - 199000, True),
                  ([task_A], noon, True)]"
  let ?c = "\<lparr> task = task_A, due = noon + 10000, start = None \<rparr>"
  have r: "run 0 initial_engine ?inputs
   = Inr (\<lparr> lastColor = Some redPulse, lastTaskKey = ''A-2024-01-01T12:00:10.000Z'',
            alarmStarted = True,
            countdown = Some \<lparr> cd_title = ''A'', cd_time = Time_left 0 0 10, cd_color = redPulse \<rparr>,
            notified5min = {''A-2024-01-01T12:00:10.000Z''} \<rparr>,
          [[Alarm_pause, Notification ''A-2024-01-01T12:00:10.000Z'' ''A'' 3 30], [], [Alarm_play]])"
    by code_simp
  have h: "selectTarget 0 [task_A] (noon - 200000) = Selected ?c
      \<and> 0 < due ?c - (noon - 200000) \<and> due ?c - (noon - 200000) \<le> 300000"
    by code_simp
  have k: "notifyKey 0 task_A = Inr ''A-2024-01-01T12:00:10.000Z''" by code_simp
  have v: "title task_A = ''A''" "notified5min initial_engine = {}"
    "(noon + 10000 - (noon - 200000)) div 60000 = 3"
    "(noon + 10000 - (noon - 200000)) div 1000 mod 60 = 30"
    by code_simp+
  note t = notification_at_most_once [of 0 ?inputs "[task_A]" "noon - 200000" ?c True initial_engine]
  from t [THEN conjunct1] r
  have 1: "length (notifications_for ''A-2024-01-01T12:00:10.000Z''
        (concat [[Alarm_pause, Notification ''A-2024-01-01T12:00:10.000Z'' ''A'' 3 30], [],
                 [Alarm_play]])) \<le> 1"
    by auto
  from t [THEN conjunct2, THEN mp, OF h] obtain st1 effs key where
    2: "tick 0 True [task_A] (noon - 200000) initial_engine = Inr (st1, effs)"
    and 3: "notifyKey 0 (task ?c) = Inr key"
    and 4: "\<forall>k. notifications_for k effs =
                 (if True \<and> k = key \<and> key \<notin> notified5min initial_engine
                  then [Notification key (title (task ?c)) ((due ?c - (noon - 200000)) div 60000)
                          ((due ?c - (noon - 200000)) div 1000 mod 60)]
                  else [])"
    and 5: "notified5min st1 = (if True then insert key (notified5min initial_engine)
                                  else notified5min initial_engine)"
    by blast
  from 3 k have key: "key = ''A-2024-01-01T12:00:10.000Z''" by simp
  from 4 [rule_format, of key] have 6: "notifications_for ''A-2024-01-01T12:00:10.000Z'' effs
             = [Notification ''A-2024-01-01T12:00:10.000Z'' ''A'' 3 30]"
    unfolding key by (simp add: v)
  from 5 have 7: "notified5min st1 = {''A-2024-01-01T12:00:10.000Z''}"
    unfolding key by (simp add: v)
  from r 1 2 6 7 show ?thesis by blast
qed

subsection \<open>Tasks without dates\<close>

text \<open>
  C5 says that when no started task has a due instant the tick shows \<open>NoDeadlineSet\<close>, and
  that a task without a due instant is never the target. A task without dates gets the
  due Date \<^verbatim>\<open>new Date(8640000000000000)\<close>, which is a valid Date, so the filter on NaN
  keeps it: the task is selected and a countdown of 2399526636 hours is shown, not the
  message \<^verbatim>\<open>"Set an end date/time to enable countdown"\<close>.
\<close>

theorem dateless_task_is_selected:
  "selectTarget 0 [bare ''A''] noon
     = Selected \<lparr> task = bare ''A'', due = 8640000000000000, start = None \<rparr>
   \<and> tick 0 True [bare ''A''] noon initial_engine
     = Inr (\<lparr> lastColor = Some blue, lastTaskKey = ''A-+275760-09-13T00:00:00.000Z'',
             alarmStarted = False,
             countdown = Some \<lparr> cd_title = ''A'', cd_time = Time_left 2399526636 0 0,
                                 cd_color = blue \<rparr>,
             notified5min = {} \<rparr>, [Alarm_pause])"
  by code_simp

text \<open>
  In general: a task without a start date and without an end date has the largest valid
  Date as its due Date, and \<open>NoDeadlineSet\<close> is shown exactly when there is an active
  started task and the due Date of every such task is invalid; so it is never shown when
  an active task has no dates.
\<close>

lemma dueOf_dateless:
  assumes "\<not> truthy (startDate t)" "\<not> truthy (endDate t)"
  shows "dueOf tz t = Date 8640000000000000" "startOf tz t = None"
  using assms by (simp_all add: dueOf_def startOf_def toDateTime_def or_else_def)

lemma selectTarget_NoDeadlineSet:
  "selectTarget tz tasks now = NoDeadlineSet \<longleftrightarrow>
     (\<exists>t\<in>set tasks. \<not> completed t \<and> isStarted tz now t)
     \<and> (\<forall>t\<in>set tasks. \<not> completed t \<and> isStarted tz now t \<longrightarrow> dueOf tz t = Invalid_Date)"
proof -
  let ?a = "filter (\<lambda>t. \<not> completed t) tasks"
  let ?s = "filter (isStarted tz now) ?a"
  have m: "List.map_filter (mkCand tz) ?s = [] \<longleftrightarrow> (\<forall>t\<in>set ?s. dueOf tz t = Invalid_Date)"
  proof -
    have "mkCand tz t = None \<longleftrightarrow> dueOf tz t = Invalid_Date" for t
      by (simp add: mkCand_def split: jsdate.splits)
    then show ?thesis
      by (simp add: List.map_filter_def filter_empty_conv del: filter_filter)
  qed
  show ?thesis
  proof (cases "?s = []")
    case True
    then have "\<not> (\<exists>t\<in>set tasks. \<not> completed t \<and> isStarted tz now t)"
      by (auto simp: filter_empty_conv)
    moreover have "selectTarget tz tasks now \<noteq> NoDeadlineSet"
      using True by (simp add: selectTarget_def Let_def del: filter_filter)
    ultimately show ?thesis by blast
  next
    case False
    then have a: "?a \<noteq> []" by (auto simp del: filter_filter)
    from False have ex: "\<exists>t\<in>set tasks. \<not> completed t \<and> isStarted tz now t"
      by (auto simp: filter_empty_conv)
    have "selectTarget tz tasks now = NoDeadlineSet \<longleftrightarrow> List.map_filter (mkCand tz) ?s = []"
      using False a by (simp add: selectTarget_def Let_def del: filter_filter)
    with m ex show ?thesis by auto
  qed
qed

lemma dateless_never_NoDeadlineSet:
  assumes "t \<in> set tasks" "\<not> completed t" "\<not> truthy (startDate t)" "\<not> truthy (endDate t)"
  shows "selectTarget tz tasks now \<noteq> NoDeadlineSet"
proof -
  have "isStarted tz now t" "dueOf tz t \<noteq> Invalid_Date"
    using dueOf_dateless [OF assms(3,4), of tz] by (simp_all add: isStarted_def)
  with assms(1,2) show ?thesis
    unfolding selectTarget_NoDeadlineSet by blast
qed

subsection \<open>Validation on create and edit\<close>




subsection \<open>End not before start\<close>

text \<open>
  C7 says that a task stored by create or edit never has its end before its start.
  \<^verbatim>\<open>addTask\<close> validates the end date field as typed, but stores the start date as end date
  when that field is blank: with start 2024-01-01 10:00, no end date and end time 09:00,
  nothing is validated and the stored task ends at 09:00 of the day it starts at 10:00,
  by the rule of the validation (\<^verbatim>\<open>toDateTime(endDate, endTime, "23:59")\<close>) and by the
  rule of the countdown (\<open>dueOf\<close>) alike. \<^verbatim>\<open>saveEdit\<close> validates the date it stores.
\<close>

theorem addTask_stores_end_before_start:
  "addTask 0 ''n1'' [] form_end_time_only [] =
     Inr [\<lparr> tid = ''n1'', title = ''t'', completed = False, startDate = Some ''2024-01-01'',
            startTime = Some ''10:00'', endDate = Some ''2024-01-01'', endTime = Some ''09:00'',
            recurrence = Some none, createdAt = Some [] \<rparr>]
   \<and> toDateTime 0 (Some ''2024-01-01'') (Some ''10:00'') ''00:00'' = Some (Date 1704103200000)
   \<and> toDateTime 0 (Some ''2024-01-01'') (Some ''09:00'') ''23:59'' = Some (Date 1704099600000)
   \<and> dueOf 0 \<lparr> tid = ''n1'', title = ''t'', completed = False, startDate = Some ''2024-01-01'',
            startTime = Some ''10:00'', endDate = Some ''2024-01-01'', endTime = Some ''09:00'',
            recurrence = Some none, createdAt = Some [] \<rparr> = Date 1704099600000"
  by code_simp

text \<open>The task \<^verbatim>\<open>saveEdit\<close> writes does not end before it starts, by the rule of the
  countdown.\<close>

lemma toDateTime_or_undefined:
  "toDateTime tz (or_undefined d) t fb = toDateTime tz (Some d) t fb"
  by (simp add: toDateTime_def or_undefined_def)

lemma saveEdit_end_not_before_start:
  assumes "saveEdit tz editingId f prev = Inr ts" "t \<in> set ts" "tid t = the editingId"
    and "startOf tz t = Some (Date s)" "dueOf tz t = Date e"
  shows "s \<le> e"
proof -
  let ?s = "toDateTime tz (Some (f_startDate f)) (Some (f_startTime f)) ''00:00''"
  let ?e = "toDateTime tz (Some (or_str (f_endDate f) (f_startDate f)))
                  (Some (or_str (or_str (f_endTime f) (f_startTime f)) ''23:59'')) ''00:00''"
  from assms(1) have ok: "\<not> (case (?s, ?e) of (Some s', Some ed') \<Rightarrow> date_lt ed' s' | _ \<Rightarrow> False)"
    and ts: "ts = map (\<lambda>t.
            if tid t = the editingId
            then t\<lparr> title := or_str (trim (f_input f)) (title t),
                    startDate := or_undefined (f_startDate f),
                    startTime := or_undefined (f_startTime f),
                    endDate := or_undefined (or_str (f_endDate f) (f_startDate f)),
                    endTime := or_undefined (f_endTime f),
                    recurrence := Some (f_recurrence f) \<rparr>
            else t) prev"
    by (auto simp: saveEdit_def Let_def split: if_splits)
  from assms(2,3) ts obtain t0 where
    t: "t = t0\<lparr> title := or_str (trim (f_input f)) (title t0),
                    startDate := or_undefined (f_startDate f),
                    startTime := or_undefined (f_startTime f),
                    endDate := or_undefined (or_str (f_endDate f) (f_startDate f)),
                    endTime := or_undefined (f_endTime f),
                    recurrence := Some (f_recurrence f) \<rparr>"
    by (auto split: if_splits)
  have s: "startOf tz t = ?s"
    unfolding t startOf_def
    by (simp add: toDateTime_def or_undefined_def)
  have e: "toDateTime tz (or_else (endDate t) (startDate t))
            (or_else (or_else (endTime t) (startTime t)) (Some ''23:59'')) ''00:00'' = ?e"
    unfolding t
    by (simp add: toDateTime_def or_undefined_def or_else_def or_str_def)
  from assms(4) s have s': "?s = Some (Date s)" by simp
  then have "f_startDate f \<noteq> []" by (simp add: toDateTime_def split: if_splits)
  then have "?e \<noteq> None" by (simp add: toDateTime_def or_str_def)
  with assms(5) e have e': "?e = Some (Date e)" by (auto simp: dueOf_def)
  from ok s' e' show ?thesis by simp
qed

subsection \<open>Recurrence\<close>

text \<open>
  C8 says that the next daily occurrence is one calendar day later, and the next weekly
  occurrence seven. \<^verbatim>\<open>addToYMD\<close> builds the date at local midnight, advances it in local
  time, and prints it with \<^verbatim>\<open>toISOString\<close>, which is in UTC. On a host east of UTC (here
  Asia/Tokyo, 540 minutes) local midnight falls on the previous UTC day: the daily
  successor of 2024-01-31 is 2024-01-31 again, the weekly one is six days later, and
  completing the daily task spawns a task with the same dates.
\<close>

theorem daily_recurrence_east_of_UTC:
  "nextByRecurrence 540 (Some ''2024-01-31'') daily = Inr (Some ''2024-01-31'')
   \<and> nextByRecurrence 540 (Some ''2024-01-31'') weekly = Inr (Some ''2024-02-06'')
   \<and> toggleTask 540 ''n1'' [] ''D''
        [(bare ''D'')\<lparr> startDate := Some ''2024-01-31'', endDate := Some ''2024-01-31'',
                       recurrence := Some daily \<rparr>]
      = Inr [(bare ''D'')\<lparr> completed := True, startDate := Some ''2024-01-31'',
                           endDate := Some ''2024-01-31'', recurrence := Some daily \<rparr>,
             \<lparr> tid = ''n1'', title = ''D'', completed = False, startDate = Some ''2024-01-31'',
               startTime = None, endDate = Some ''2024-01-31'', endTime = None,
               recurrence = Some daily, createdAt = Some [] \<rparr>]"
  by code_simp

text \<open>On a host in UTC or west of it the same dates advance as C8 says; a month after
  2024-01-31 is 2024-03-02 there.\<close>

lemma recurrence_at_or_west_of_UTC:
  "nextByRecurrence 0 (Some ''2024-01-31'') daily = Inr (Some ''2024-02-01'')
   \<and> nextByRecurrence (-300) (Some ''2024-01-31'') weekly = Inr (Some ''2024-02-07'')
   \<and> nextByRecurrence 0 (Some ''2024-01-31'') monthly = Inr (Some ''2024-03-02'')"
  by code_simp

text \<open>
  The reason, for any date: the UTC day of local midnight of day \<open>n\<close> is \<open>n - 1\<close> on a host
  east of UTC, and \<open>n\<close> on a host in UTC or west of it.
\<close>

lemma utc_day_of_local_midnight:
  assumes "- 1440 < tz" "tz < 1440"
  shows "Day (UTC_of tz (MakeDate n 0)) = (if 0 < tz then n - 1 else n)"
proof -
  have e: "UTC_of tz (MakeDate n 0) = n * 86400000 + (- tz * 60000)"
    by (simp add: UTC_of_def MakeDate_def msPerDay_def msPerMinute_def)
  have d: "(n * 86400000 + (- tz * 60000)) div 86400000 = n + (- tz * 60000) div 86400000"
    by (simp add: div_mult_self2 [where b = 86400000] add.commute)
  have r: "(- tz * 60000) div 86400000 = (if 0 < tz then - 1 else 0)"
    using assms by (auto simp: div_eq_minus1 zdiv_eq_0_iff) 
  show ?thesis unfolding Day_def msPerDay_def e d r by simp
qed

subsection \<open>Chime and last colour\<close>




subsection \<open>End date defaults to start date\<close>

text \<open>
  C10. A task written by \<^verbatim>\<open>addTask\<close> or \<^verbatim>\<open>saveEdit\<close> has an end date whenever it has a
  start date: when the end date field is blank, the stored end date is the stored start
  date. \<^verbatim>\<open>addTask\<close> appends exactly that task; \<^verbatim>\<open>saveEdit\<close> rewrites the tasks with the
  edited id and leaves the others as they are.
\<close>

theorem stored_endDate_defaults_to_startDate: 
  "(addTask tz newId nowIso f prev = Inr ts \<longrightarrow>
      (\<exists>t. ts = prev @ [t]
         \<and> startDate t = or_undefined (f_startDate f)
         \<and> (f_endDate f = [] \<longrightarrow> endDate t = startDate t)
         \<and> (startDate t \<noteq> None \<longrightarrow> endDate t \<noteq> None)))
   \<and> (saveEdit tz editingId f prev = Inr ts' \<longrightarrow>
      length ts' = length prev
      \<and> (\<forall>i < length prev.
           if tid (prev ! i) = the editingId
           then startDate (ts' ! i) = or_undefined (f_startDate f)
              \<and> (f_endDate f = [] \<longrightarrow> endDate (ts' ! i) = startDate (ts' ! i))
              \<and> (startDate (ts' ! i) \<noteq> None \<longrightarrow> endDate (ts' ! i) \<noteq> None)
           else ts' ! i = prev ! i))"
  by (auto simp: addTask_def saveEdit_def Let_def or_undefined_def or_str_def split: if_splits)

text \<open>Witness: a form with only a title and a start date, added and saved as an edit.\<close>

theorem stored_endDate_witness:
  "addTask 0 ''n1'' [] form_start_only [] =
     Inr [\<lparr> tid = ''n1'', title = ''t'', completed = False, startDate = Some ''2024-01-01'',
            startTime = None, endDate = Some ''2024-01-01'', endTime = None,
            recurrence = Some none, createdAt = Some [] \<rparr>]
   \<and> saveEdit 0 (Some ''A'') form_start_only [task_A, task_B] =
     Inr [\<lparr> tid = ''A'', title = ''t'', completed = False, startDate = Some ''2024-01-01'',
            startTime = None, endDate = Some ''2024-01-01'', endTime = None,
            recurrence = Some none, createdAt = None \<rparr>, task_B]
   \<and> (\<exists>t. endDate t = startDate t \<and> startDate t = Some ''2024-01-01'' \<and> endDate t \<noteq> None
        \<and> addTask 0 ''n1'' [] form_start_only [] = Inr ([] @ [t]))"
proof -
  let ?t = "\<lparr> tid = ''n1'', title = ''t'', completed = False, startDate = Some ''2024-01-01'',
            startTime = None, endDate = Some ''2024-01-01'', endTime = None,
            recurrence = Some none, createdAt = Some [] \<rparr>"
  have a: "addTask 0 ''n1'' [] form_start_only [] = Inr [?t]"
    by code_simp
  have b: "saveEdit 0 (Some ''A'') form_start_only [task_A, task_B] =
     Inr [\<lparr> tid = ''A'', title = ''t'', completed = False, startDate = Some ''2024-01-01'',
            startTime = None, endDate = Some ''2024-01-01'', endTime = None,
            recurrence = Some none, createdAt = None \<rparr>, task_B]"
    by code_simp
  have f: "f_endDate form_start_only = []" "or_undefined (f_startDate form_start_only) = Some ''2024-01-01''"
    by code_simp+
  from stored_endDate_defaults_to_startDate [THEN conjunct1, THEN mp, OF a] obtain t where
    "[?t] = [] @ [t]" "startDate t = or_undefined (f_startDate form_start_only)"
    "f_endDate form_start_only = [] \<longrightarrow> endDate t = startDate t"
    "startDate t \<noteq> None \<longrightarrow> endDate t \<noteq> None"
    by blast
  with f a have "endDate t = startDate t \<and> startDate t = Some ''2024-01-01'' \<and> endDate t \<noteq> None
        \<and> addTask 0 ''n1'' [] form_start_only [] = Inr ([] @ [t])"
    by simp
  with a b show ?thesis by blast
qed

end
